theory Spec2Isabelle
  imports Main "HOL-Library.Word"
begin

unbundle bit_operations_syntax

section \<open>The per-slab reference counts of VDO (refCounts.c)\<close>

text \<open>
  This theory embeds the reference-count engine of \<^verbatim>\<open>src/utils/vdo/base/refCounts.c\<close>.
  C structs are records, C enums are datatypes, fixed-width integers are words, pointers
  into the block vector and into the counter array are indices, and every function takes
  the \<^verbatim>\<open>ref_counts\<close> object it mutates and returns the mutated object together with its
  result code, its out-parameters and the calls it made to its collaborators (the PBN
  lock, the slab journal), in the order the source makes them.
\<close>

subsection \<open>Scalar types and constants\<close>

type_synonym ReferenceCount = "8 word"
type_synonym PhysicalBlockNumber = "64 word"
type_synonym BlockCount = "64 word"
type_synonym slab_block_number = "32 word"
type_synonym SequenceNumber = "64 word"
type_synonym JournalEntryCount = "16 word"

text \<open>
  Modelled from the spec: the three distinguished counter values (their header,
  referenceBlock.h, is not among the sources). Section 3 of the specification gives
  \<open>EMPTY\<close> (0), \<open>PROVISIONAL\<close> (255) and \<open>MAXIMUM_REFERENCE_COUNT = 254\<close>.
\<close>

definition EMPTY_REFERENCE_COUNT :: ReferenceCount where
  "EMPTY_REFERENCE_COUNT = 0"

definition MAXIMUM_REFERENCE_COUNT :: ReferenceCount where
  "MAXIMUM_REFERENCE_COUNT = 254"

definition PROVISIONAL_REFERENCE_COUNT :: ReferenceCount where
  "PROVISIONAL_REFERENCE_COUNT = 255"

definition BYTES_PER_WORD :: nat where
  "BYTES_PER_WORD = 8"

definition NORMAL_OPERATION :: bool where
  "NORMAL_OPERATION = True"

text \<open>
  The geometry constants \<^verbatim>\<open>SECTORS_PER_BLOCK\<close> and \<^verbatim>\<open>COUNTS_PER_SECTOR\<close> are declared
  outside the sources; they are parameters of the model. The specification fixes only
  \<open>COUNTS_PER_BLOCK = SECTORS_PER_BLOCK * COUNTS_PER_SECTOR\<close>.
\<close>

record layout =
  SECTORS_PER_BLOCK :: nat
  COUNTS_PER_SECTOR :: nat

definition COUNTS_PER_BLOCK :: "layout \<Rightarrow> nat" where
  "COUNTS_PER_BLOCK L = SECTORS_PER_BLOCK L * COUNTS_PER_SECTOR L"

datatype vdo_status =
    VDO_SUCCESS
  | VDO_REF_COUNT_INVALID
  | VDO_INVALID_ADMIN_STATE
  | VDO_OUT_OF_RANGE
  | VDO_NO_SPACE
  | VDO_NOT_IMPLEMENTED
  | UDS_ASSERTION_FAILED

datatype reference_status = RS_FREE | RS_SINGLE | RS_SHARED | RS_PROVISIONAL

text \<open>
  The operation tags. The source switches on three of them and has a default branch for
  every other tag value, which \<open>OTHER_OPERATION\<close> stands for.
\<close>

datatype journal_operation =
    DATA_INCREMENT
  | DATA_DECREMENT
  | BLOCK_MAP_INCREMENT
  | OTHER_OPERATION nat

subsection \<open>Journal points\<close>

record journal_point =
  sequence_number :: SequenceNumber
  entry_count :: JournalEntryCount

text \<open>
  Modelled from the spec: \<^verbatim>\<open>is_valid_journal_point\<close>, \<^verbatim>\<open>before_journal_point\<close> and
  \<^verbatim>\<open>are_equivalent_journal_points\<close> of journalPoint.h, which is not among the sources.
  The specification calls a journal point a totally ordered identifier
  \<open>(sequence_number, entry_count)\<close>, uses sequence number 0 for "none" and passes a nil
  point where there is no journal entry. A pointer that may be \<^verbatim>\<open>NULL\<close> is an option.
\<close>

definition is_valid_journal_point :: "journal_point option \<Rightarrow> bool" where
  "is_valid_journal_point point =
     (case point of None \<Rightarrow> False | Some p \<Rightarrow> 0 < sequence_number p)"

definition before_journal_point :: "journal_point \<Rightarrow> journal_point \<Rightarrow> bool" where
  "before_journal_point first second =
     (sequence_number first < sequence_number second
      \<or> (sequence_number first = sequence_number second
          \<and> entry_count first < entry_count second))"

definition are_equivalent_journal_points :: "journal_point \<Rightarrow> journal_point \<Rightarrow> bool" where
  "are_equivalent_journal_points first second =
     (sequence_number first = sequence_number second
      \<and> entry_count first = entry_count second)"

subsection \<open>The slab, the PBN lock and the calls to collaborators\<close>

text \<open>
  Modelled from the spec: the slab (slab.h is not among the sources). Of the slab the
  engine reads \<open>start\<close> (the origin PBN of the slab's data blocks), whether its admin state
  is an open one, and, through \<^verbatim>\<open>slab_block_number_from_pbn\<close>, the number of its data
  blocks. The specification: a slab block number is \<open>pbn - slab.start\<close>, and
  \<open>OUT_OF_RANGE\<close> is returned when the PBN maps outside the slab's data blocks.
\<close>

record vdo_slab =
  start :: PhysicalBlockNumber
  data_blocks :: BlockCount
  open_state :: bool

definition is_slab_open :: "vdo_slab \<Rightarrow> bool" where
  "is_slab_open s = open_state s"

definition slab_block_number_from_pbn ::
  "vdo_slab \<Rightarrow> PhysicalBlockNumber \<Rightarrow> vdo_status + slab_block_number" where
  "slab_block_number_from_pbn s physical_block_number =
     (if physical_block_number < start s then Inl VDO_OUT_OF_RANGE
      else if data_blocks s \<le> physical_block_number - start s then Inl VDO_OUT_OF_RANGE
      else Inr (ucast (physical_block_number - start s)))"

text \<open>A PBN lock is known to the engine only as a pointer; \<open>None\<close> is \<^verbatim>\<open>NULL\<close>.\<close>

type_synonym pbn_lock = nat

datatype collaborator_call =
    unassign_provisional_reference pbn_lock
  | assign_provisional_reference pbn_lock
  | adjust_slab_journal_block_reference SequenceNumber int
  | enter_read_only_mode vdo_status

record reference_operation =
  type :: journal_operation
  pbn :: PhysicalBlockNumber
  lock :: "pbn_lock option"

definition get_reference_operation_pbn_lock :: "reference_operation \<Rightarrow> pbn_lock option" where
  "get_reference_operation_pbn_lock operation = lock operation"

subsection \<open>Reference blocks and the reference counts object\<close>

record reference_block =
  allocated_count :: "16 word"
  slab_journal_lock :: SequenceNumber
  slab_journal_lock_to_release :: SequenceNumber
  commit_points :: "journal_point list"
  is_dirty :: bool
  is_writing :: bool

record search_cursor =
  block :: nat
  index :: slab_block_number
  end_index :: slab_block_number
  first_block :: nat
  last_block :: nat

record ref_counts =
  slab :: vdo_slab
  block_count :: "32 word"
  free_blocks :: "32 word"
  counters :: "ReferenceCount list"
  search_cursor :: search_cursor
  dirty_blocks :: "nat list"
  active_count :: "64 word"
  updating_slab_summary :: bool
  origin :: PhysicalBlockNumber
  slab_journal_point :: journal_point
  reference_block_count :: "32 word"
  blocks :: "reference_block list"

subsection \<open>Counter status and lookup\<close>

definition index_to_pbn :: "ref_counts \<Rightarrow> slab_block_number \<Rightarrow> PhysicalBlockNumber" where
  "index_to_pbn rc idx = start (slab rc) + ucast idx"

definition reference_count_to_status :: "ReferenceCount \<Rightarrow> reference_status" where
  "reference_count_to_status count =
     (if count = EMPTY_REFERENCE_COUNT then RS_FREE
      else if count = 1 then RS_SINGLE
      else if count = PROVISIONAL_REFERENCE_COUNT then RS_PROVISIONAL
      else RS_SHARED)"

text \<open>A pointer to a reference block is the block's position in \<open>blocks\<close>.\<close>

definition get_reference_block :: "layout \<Rightarrow> slab_block_number \<Rightarrow> nat" where
  "get_reference_block L idx = unat idx div COUNTS_PER_BLOCK L"

text \<open>A pointer to a counter is the counter's position in \<open>counters\<close>.\<close>

definition get_reference_counter ::
  "ref_counts \<Rightarrow> PhysicalBlockNumber \<Rightarrow> vdo_status + nat" where
  "get_reference_counter rc p =
     (case slab_block_number_from_pbn (slab rc) p of
        Inl result \<Rightarrow> Inl result
      | Inr idx \<Rightarrow> Inr (unat idx))"

definition get_available_references :: "ref_counts \<Rightarrow> PhysicalBlockNumber \<Rightarrow> 8 word" where
  "get_available_references rc p =
     (case get_reference_counter rc p of
        Inl result \<Rightarrow> 0
      | Inr counter_ptr \<Rightarrow>
          if counters rc ! counter_ptr = PROVISIONAL_REFERENCE_COUNT
          then MAXIMUM_REFERENCE_COUNT - 1
          else MAXIMUM_REFERENCE_COUNT - counters rc ! counter_ptr)"

definition get_reference_status ::
  "ref_counts \<Rightarrow> PhysicalBlockNumber \<Rightarrow> vdo_status + reference_status" where
  "get_reference_status rc p =
     (case get_reference_counter rc p of
        Inl result \<Rightarrow> Inl result
      | Inr counter_ptr \<Rightarrow> Inr (reference_count_to_status (counters rc ! counter_ptr)))"

subsection \<open>Dirty blocks\<close>

text \<open>A store through a block pointer: \<^verbatim>\<open>block->field = ...\<close>.\<close>

definition map_block ::
  "nat \<Rightarrow> (reference_block \<Rightarrow> reference_block) \<Rightarrow> ref_counts \<Rightarrow> ref_counts" where
  "map_block blk f rc = rc\<lparr>blocks := (blocks rc)[blk := f (blocks rc ! blk)]\<rparr>"

text \<open>
  Modelled from the spec: \<^verbatim>\<open>enqueueWaiter\<close> (waitQueue.h is not among the sources). The
  dirty queue is first-in first-out over insertion; the failure branch of the source
  ("this should never happen") is not taken.
\<close>

definition enqueue_dirty_block :: "nat \<Rightarrow> ref_counts \<Rightarrow> ref_counts" where
  "enqueue_dirty_block blk rc = rc\<lparr>dirty_blocks := dirty_blocks rc @ [blk]\<rparr>"

definition dirty_block :: "nat \<Rightarrow> ref_counts \<Rightarrow> ref_counts" where
  "dirty_block blk rc =
     (if is_dirty (blocks rc ! blk) then rc
      else let rc1 = map_block blk (\<lambda>b. b\<lparr>is_dirty := True\<rparr>) rc in
           if is_writing (blocks rc1 ! blk) then rc1
           else enqueue_dirty_block blk rc1)"

subsection \<open>The update core\<close>

text \<open>
  Each of the three helpers returns its result code, the mutated object, what it stored
  through \<^verbatim>\<open>free_status_changed\<close> (\<open>None\<close> when it stored nothing) and its calls on the
  lock.
\<close>

type_synonym update_result =
  "vdo_status \<times> ref_counts \<times> bool option \<times> collaborator_call list"

definition increment_for_data ::
  "ref_counts \<Rightarrow> nat \<Rightarrow> slab_block_number \<Rightarrow> reference_status \<Rightarrow> pbn_lock option \<Rightarrow> nat
   \<Rightarrow> update_result" where
  "increment_for_data rc blk sbn old_status lck counter_ptr =
     (let unassign = (case lck of None \<Rightarrow> [] | Some l \<Rightarrow> [unassign_provisional_reference l]) in
      case old_status of
        RS_FREE \<Rightarrow>
          (VDO_SUCCESS,
           (map_block blk (\<lambda>b. b\<lparr>allocated_count := allocated_count b + 1\<rparr>)
              (rc\<lparr>counters := (counters rc)[counter_ptr := 1]\<rparr>))
             \<lparr>free_blocks := free_blocks rc - 1\<rparr>,
           Some True, unassign)
      | RS_PROVISIONAL \<Rightarrow>
          (VDO_SUCCESS, rc\<lparr>counters := (counters rc)[counter_ptr := 1]\<rparr>, Some False, unassign)
      | _ \<Rightarrow>
          if MAXIMUM_REFERENCE_COUNT \<le> counters rc ! counter_ptr
          then (VDO_REF_COUNT_INVALID, rc, None, [])
          else (VDO_SUCCESS,
                rc\<lparr>counters := (counters rc)[counter_ptr := counters rc ! counter_ptr + 1]\<rparr>,
                Some False, unassign))"

definition decrement_for_data ::
  "ref_counts \<Rightarrow> nat \<Rightarrow> slab_block_number \<Rightarrow> reference_status \<Rightarrow> pbn_lock option \<Rightarrow> nat
   \<Rightarrow> update_result" where
  "decrement_for_data rc blk sbn old_status lck counter_ptr =
     (let provisional_or_single =
        (case lck of
           Some l \<Rightarrow>
             (VDO_SUCCESS,
              rc\<lparr>counters := (counters rc)[counter_ptr := PROVISIONAL_REFERENCE_COUNT]\<rparr>,
              Some False, [assign_provisional_reference l])
         | None \<Rightarrow>
             (VDO_SUCCESS,
              (map_block blk (\<lambda>b. b\<lparr>allocated_count := allocated_count b - 1\<rparr>)
                 (rc\<lparr>counters := (counters rc)[counter_ptr := EMPTY_REFERENCE_COUNT]\<rparr>))
                \<lparr>free_blocks := free_blocks rc + 1\<rparr>,
              Some True, []))
      in
      case old_status of
        RS_FREE \<Rightarrow> (VDO_REF_COUNT_INVALID, rc, None, [])
      | RS_PROVISIONAL \<Rightarrow> provisional_or_single
      | RS_SINGLE \<Rightarrow> provisional_or_single
      | _ \<Rightarrow>
          (VDO_SUCCESS,
           rc\<lparr>counters := (counters rc)[counter_ptr := counters rc ! counter_ptr - 1]\<rparr>,
           Some False, []))"

definition increment_for_block_map ::
  "ref_counts \<Rightarrow> nat \<Rightarrow> slab_block_number \<Rightarrow> reference_status \<Rightarrow> pbn_lock option \<Rightarrow> bool
   \<Rightarrow> nat \<Rightarrow> update_result" where
  "increment_for_block_map rc blk sbn old_status lck normal_operation counter_ptr =
     (case old_status of
        RS_FREE \<Rightarrow>
          if normal_operation then (VDO_REF_COUNT_INVALID, rc, None, [])
          else (VDO_SUCCESS,
                (map_block blk (\<lambda>b. b\<lparr>allocated_count := allocated_count b + 1\<rparr>)
                   (rc\<lparr>counters := (counters rc)[counter_ptr := MAXIMUM_REFERENCE_COUNT]\<rparr>))
                  \<lparr>free_blocks := free_blocks rc - 1\<rparr>,
                Some True, [])
      | RS_PROVISIONAL \<Rightarrow>
          if \<not> normal_operation then (VDO_REF_COUNT_INVALID, rc, None, [])
          else (VDO_SUCCESS,
                rc\<lparr>counters := (counters rc)[counter_ptr := MAXIMUM_REFERENCE_COUNT]\<rparr>,
                Some False,
                (case lck of None \<Rightarrow> [] | Some l \<Rightarrow> [unassign_provisional_reference l]))
      | _ \<Rightarrow> (VDO_REF_COUNT_INVALID, rc, None, []))"

text \<open>
  \<^verbatim>\<open>update_reference_count\<close> returns, after the result code and the object, what was
  stored through \<^verbatim>\<open>free_status_changed\<close> and whether the update left through the
  provisional-decrement return (the value the source stores through
  \<^verbatim>\<open>provisional_decrement_ptr\<close> when that pointer is not \<^verbatim>\<open>NULL\<close>; the caller's
  variable starts as \<^verbatim>\<open>false\<close>).
\<close>

definition update_reference_count ::
  "ref_counts \<Rightarrow> nat \<Rightarrow> slab_block_number \<Rightarrow> journal_point option \<Rightarrow> reference_operation
   \<Rightarrow> bool \<Rightarrow> vdo_status \<times> ref_counts \<times> bool option \<times> bool \<times> collaborator_call list" where
  "update_reference_count rc blk sbn point operation normal_operation =
     (let counter_ptr = unat sbn;
          old_status = reference_count_to_status (counters rc ! counter_ptr);
          lck = get_reference_operation_pbn_lock operation;
          (result, rc1, fsc, calls) =
            (case type operation of
               DATA_INCREMENT \<Rightarrow> increment_for_data rc blk sbn old_status lck counter_ptr
             | DATA_DECREMENT \<Rightarrow> decrement_for_data rc blk sbn old_status lck counter_ptr
             | BLOCK_MAP_INCREMENT \<Rightarrow>
                 increment_for_block_map rc blk sbn old_status lck normal_operation counter_ptr
             | OTHER_OPERATION n \<Rightarrow>
                 (VDO_NOT_IMPLEMENTED, rc, None, [enter_read_only_mode VDO_NOT_IMPLEMENTED]))
      in
      if type operation = DATA_DECREMENT \<and> result = VDO_SUCCESS \<and> old_status = RS_PROVISIONAL
      then (VDO_SUCCESS, rc1, fsc, True, calls)
      else if result \<noteq> VDO_SUCCESS then (result, rc1, fsc, False, calls)
      else (VDO_SUCCESS,
            (case point of
               Some p \<Rightarrow> if is_valid_journal_point point then rc1\<lparr>slab_journal_point := p\<rparr> else rc1
             | None \<Rightarrow> rc1),
            fsc, False, calls))"

text \<open>
  Modelled from the spec: the \<^verbatim>\<open>ASSERT\<close> macro of permassert.h (not among the sources)
  yields \<open>UDS_ASSERTION_FAILED\<close> when its condition is false.
\<close>

definition adjust_reference_count ::
  "layout \<Rightarrow> ref_counts \<Rightarrow> reference_operation \<Rightarrow> journal_point option \<Rightarrow> update_result" where
  "adjust_reference_count L rc operation point =
     (if \<not> is_slab_open (slab rc) then (VDO_INVALID_ADMIN_STATE, rc, None, [])
      else case slab_block_number_from_pbn (slab rc) (pbn operation) of
        Inl result \<Rightarrow> (result, rc, None, [])
      | Inr sbn \<Rightarrow>
          let blk = get_reference_block L sbn;
              (result, rc1, fsc, provisional_decrement, calls) =
                update_reference_count rc blk sbn point operation NORMAL_OPERATION
          in
          if result \<noteq> VDO_SUCCESS \<or> provisional_decrement then (result, rc1, fsc, calls)
          else if is_dirty (blocks rc1 ! blk) \<and> 0 < slab_journal_lock (blocks rc1 ! blk) then
            (case point of
               Some p \<Rightarrow>
                 if is_valid_journal_point point
                 then (VDO_SUCCESS, rc1, fsc,
                       calls @ [adjust_slab_journal_block_reference (sequence_number p) (- 1)])
                 else (UDS_ASSERTION_FAILED, rc1, fsc, calls)
             | None \<Rightarrow> (UDS_ASSERTION_FAILED, rc1, fsc, calls))
          else
            (VDO_SUCCESS,
             dirty_block blk
               (map_block blk
                  (\<lambda>b. b\<lparr>slab_journal_lock :=
                            (case point of
                               Some p \<Rightarrow> if is_valid_journal_point point then sequence_number p else 0
                             | None \<Rightarrow> 0)\<rparr>)
                  rc1),
             fsc, calls))"

definition adjust_reference_count_for_rebuild ::
  "layout \<Rightarrow> ref_counts \<Rightarrow> PhysicalBlockNumber \<Rightarrow> journal_operation
   \<Rightarrow> vdo_status \<times> ref_counts \<times> collaborator_call list" where
  "adjust_reference_count_for_rebuild L rc p operation =
     (case slab_block_number_from_pbn (slab rc) p of
        Inl result \<Rightarrow> (result, rc, [])
      | Inr sbn \<Rightarrow>
          let blk = get_reference_block L sbn;
              physical_operation = \<lparr>type = operation, pbn = 0, lock = None\<rparr>;
              (result, rc1, unused_free_status, provisional_decrement, calls) =
                update_reference_count rc blk sbn None physical_operation (\<not> NORMAL_OPERATION)
          in
          if result \<noteq> VDO_SUCCESS then (result, rc1, calls)
          else (VDO_SUCCESS, dirty_block blk rc1, calls))"

record slab_journal_entry =
  sbn :: slab_block_number
  operation :: journal_operation

definition replay_reference_count_change ::
  "layout \<Rightarrow> ref_counts \<Rightarrow> journal_point \<Rightarrow> slab_journal_entry
   \<Rightarrow> vdo_status \<times> ref_counts \<times> collaborator_call list" where
  "replay_reference_count_change L rc entry_point entry =
     (let blk = get_reference_block L (sbn entry);
          sector = (unat (sbn entry) mod COUNTS_PER_BLOCK L) div COUNTS_PER_SECTOR L
      in
      if \<not> before_journal_point (commit_points (blocks rc ! blk) ! sector) entry_point
      then (VDO_SUCCESS, rc, [])
      else
        let (result, rc1, unused_free_status, provisional_decrement, calls) =
              update_reference_count rc blk (sbn entry) (Some entry_point)
                \<lparr>type = operation entry, pbn = 0, lock = None\<rparr> (\<not> NORMAL_OPERATION)
        in
        if result \<noteq> VDO_SUCCESS then (result, rc1, calls)
        else (VDO_SUCCESS, dirty_block blk rc1, calls))"

subsection \<open>The free-block search\<close>

text \<open>
  Modelled from the spec: \<^verbatim>\<open>getUInt64LE\<close> of numeric.h (not among the sources) reads the
  eight bytes at the pointer as a little-endian 64-bit word.
\<close>

fun le_word :: "8 word list \<Rightarrow> 64 word" where
  "le_word [] = 0"
| "le_word (b # bs) = ucast b OR push_bit 8 (le_word bs)"

definition getUInt64LE :: "8 word list \<Rightarrow> nat \<Rightarrow> 64 word" where
  "getUInt64LE bytes ptr = le_word (map (\<lambda>k. bytes ! (ptr + k)) [0..<8])"

function find_zero_byte_loop ::
  "64 word \<Rightarrow> nat \<Rightarrow> slab_block_number \<Rightarrow> slab_block_number \<Rightarrow> slab_block_number" where
  "find_zero_byte_loop word offset start_index fail_index =
     (if offset < BYTES_PER_WORD then
        (if word AND 0xFF = 0 then start_index + of_nat offset
         else find_zero_byte_loop (drop_bit 8 word) (offset + 1) start_index fail_index)
      else fail_index)"
  by pat_completeness auto
termination
  by (relation "measure (\<lambda>(word, offset, start_index, fail_index). BYTES_PER_WORD - offset)") auto

definition find_zero_byte_in_word ::
  "ReferenceCount list \<Rightarrow> nat \<Rightarrow> slab_block_number \<Rightarrow> slab_block_number \<Rightarrow> slab_block_number" where
  "find_zero_byte_in_word cs word_ptr start_index fail_index =
     find_zero_byte_loop (getUInt64LE cs word_ptr) 0 start_index fail_index"

text \<open>
  The word-at-a-time loop of \<^verbatim>\<open>find_free_block\<close>. \<open>next_counter\<close> and \<open>end_counter\<close> are
  the two pointers into the counter array, \<open>next_index\<close> is the 32-bit index kept beside
  the pointer.
\<close>

function find_free_block_loop ::
  "ReferenceCount list \<Rightarrow> slab_block_number \<Rightarrow> nat \<Rightarrow> slab_block_number \<Rightarrow> nat
   \<Rightarrow> slab_block_number option" where
  "find_free_block_loop cs next_index next_counter end_idx end_counter =
     (if next_counter < end_counter then
        (let zero_index = find_zero_byte_in_word cs next_counter next_index end_idx in
         if zero_index < end_idx then Some zero_index
         else find_free_block_loop cs (next_index + of_nat BYTES_PER_WORD)
                (next_counter + BYTES_PER_WORD) end_idx end_counter)
      else None)"
  by pat_completeness auto
termination
  by (relation "measure (\<lambda>(cs, next_index, next_counter, end_idx, end_counter).
                           end_counter - next_counter)")
     (auto simp: BYTES_PER_WORD_def)

text \<open>\<open>Some i\<close>: the source returns \<^verbatim>\<open>true\<close> with \<^verbatim>\<open>*index_ptr = i\<close>; \<open>None\<close>: it returns
  \<^verbatim>\<open>false\<close>.\<close>

definition find_free_block ::
  "ref_counts \<Rightarrow> slab_block_number \<Rightarrow> slab_block_number \<Rightarrow> slab_block_number option" where
  "find_free_block rc start_index end_idx =
     (let next_index = start_index;
          next_counter = unat next_index;
          end_counter = unat end_idx;
          zero_index = find_zero_byte_in_word (counters rc) next_counter next_index end_idx
      in
      if zero_index < end_idx then Some zero_index
      else find_free_block_loop (counters rc) (next_index + of_nat BYTES_PER_WORD)
             (next_counter + BYTES_PER_WORD) end_idx end_counter)"

definition reset_search_cursor :: "layout \<Rightarrow> ref_counts \<Rightarrow> ref_counts" where
  "reset_search_cursor L rc =
     rc\<lparr>search_cursor := (search_cursor rc)
          \<lparr>block := first_block (search_cursor rc),
           index := 0,
           end_index := of_nat (min (COUNTS_PER_BLOCK L) (unat (block_count rc)))\<rparr>\<rparr>"

definition advance_search_cursor :: "layout \<Rightarrow> ref_counts \<Rightarrow> bool \<times> ref_counts" where
  "advance_search_cursor L rc =
     (let cursor = search_cursor rc in
      if block cursor = last_block cursor then (False, reset_search_cursor L rc)
      else
        let cursor1 = cursor\<lparr>block := block cursor + 1, index := end_index cursor\<rparr>;
            cursor2 =
              (if block cursor1 = last_block cursor1
               then cursor1\<lparr>end_index := block_count rc\<rparr>
               else cursor1\<lparr>end_index := end_index cursor1 + of_nat (COUNTS_PER_BLOCK L)\<rparr>)
        in (True, rc\<lparr>search_cursor := cursor2\<rparr>))"

definition search_current_reference_block ::
  "layout \<Rightarrow> ref_counts \<Rightarrow> slab_block_number option" where
  "search_current_reference_block L rc =
     (if unat (allocated_count (blocks rc ! block (search_cursor rc))) < COUNTS_PER_BLOCK L
      then find_free_block rc (index (search_cursor rc)) (end_index (search_cursor rc))
      else None)"

text \<open>
  The \<^verbatim>\<open>while (advance_search_cursor(ref_counts))\<close> loop of
  \<^verbatim>\<open>search_reference_blocks\<close>. The result \<open>None\<close> of the option monad is a loop that does
  not return; \<open>Some (found, rc)\<close> is the return with the advanced cursor.
\<close>

partial_function (option) search_reference_blocks_loop ::
  "layout \<Rightarrow> ref_counts \<Rightarrow> (slab_block_number option \<times> ref_counts) option" where
  "search_reference_blocks_loop L rc =
     (if fst (advance_search_cursor L rc) then
        (if search_current_reference_block L (snd (advance_search_cursor L rc)) \<noteq> None
         then Some (search_current_reference_block L (snd (advance_search_cursor L rc)),
                    snd (advance_search_cursor L rc))
         else search_reference_blocks_loop L (snd (advance_search_cursor L rc)))
      else Some (None, snd (advance_search_cursor L rc)))"

definition search_reference_blocks ::
  "layout \<Rightarrow> ref_counts \<Rightarrow> (slab_block_number option \<times> ref_counts) option" where
  "search_reference_blocks L rc =
     (if search_current_reference_block L rc \<noteq> None
      then Some (search_current_reference_block L rc, rc)
      else search_reference_blocks_loop L rc)"

subsection \<open>Allocation and provisional references\<close>

definition make_provisional_reference ::
  "layout \<Rightarrow> slab_block_number \<Rightarrow> ref_counts \<Rightarrow> ref_counts" where
  "make_provisional_reference L idx rc =
     (map_block (get_reference_block L idx)
        (\<lambda>b. b\<lparr>allocated_count := allocated_count b + 1\<rparr>)
        (rc\<lparr>counters := (counters rc)[unat idx := PROVISIONAL_REFERENCE_COUNT]\<rparr>))
       \<lparr>free_blocks := free_blocks rc - 1\<rparr>"

text \<open>
  The result is \<open>None\<close> when the search does not return. Otherwise it holds the result
  code, the object, the PBN stored through \<^verbatim>\<open>allocated_ptr\<close> (if any) and the calls made
  to collaborators, of which the source has none on this path.
\<close>

definition allocate_unreferenced_block ::
  "layout \<Rightarrow> ref_counts
   \<Rightarrow> (vdo_status \<times> ref_counts \<times> PhysicalBlockNumber option \<times> collaborator_call list) option" where
  "allocate_unreferenced_block L rc =
     (if \<not> is_slab_open (slab rc) then Some (VDO_INVALID_ADMIN_STATE, rc, None, [])
      else case search_reference_blocks L rc of
        None \<Rightarrow> None
      | Some (None, rc1) \<Rightarrow> Some (VDO_NO_SPACE, rc1, None, [])
      | Some (Some free_index, rc1) \<Rightarrow>
          let rc2 = make_provisional_reference L free_index rc1;
              rc3 = rc2\<lparr>search_cursor := (search_cursor rc2)\<lparr>index := free_index + 1\<rparr>\<rparr>
          in Some (VDO_SUCCESS, rc3, Some (index_to_pbn rc3 free_index), []))"

definition provisionally_reference_block ::
  "layout \<Rightarrow> ref_counts \<Rightarrow> PhysicalBlockNumber \<Rightarrow> pbn_lock option
   \<Rightarrow> vdo_status \<times> ref_counts \<times> collaborator_call list" where
  "provisionally_reference_block L rc p lck =
     (if \<not> is_slab_open (slab rc) then (VDO_INVALID_ADMIN_STATE, rc, [])
      else case slab_block_number_from_pbn (slab rc) p of
        Inl result \<Rightarrow> (result, rc, [])
      | Inr idx \<Rightarrow>
          if counters rc ! unat idx = EMPTY_REFERENCE_COUNT
          then (VDO_SUCCESS, make_provisional_reference L idx rc,
                (case lck of None \<Rightarrow> [] | Some l \<Rightarrow> [assign_provisional_reference l]))
          else (VDO_SUCCESS, rc, []))"

subsection \<open>Construction and reset\<close>

text \<open>
  Modelled from the spec: \<^verbatim>\<open>computeBucketCount\<close> of numUtils.h (not among the sources);
  the saved size is \<open>ceil(block_count / COUNTS_PER_BLOCK)\<close>.
\<close>

definition get_saved_reference_count_size :: "layout \<Rightarrow> nat \<Rightarrow> nat" where
  "get_saved_reference_count_size L n =
     n div COUNTS_PER_BLOCK L + (if n mod COUNTS_PER_BLOCK L > 0 then 1 else 0)"

text \<open>
  \<^verbatim>\<open>make_ref_counts\<close> with both allocations succeeding; the allocator hands out zeroed
  memory, so every counter starts \<open>EMPTY\<close> and every block starts clean. The counter
  array has a full block of counters for the runt block and two words of padding.
\<close>

definition make_ref_counts ::
  "layout \<Rightarrow> 32 word \<Rightarrow> vdo_slab \<Rightarrow> PhysicalBlockNumber \<Rightarrow> ref_counts" where
  "make_ref_counts L n s origin_pbn =
     (let ref_block_count = get_saved_reference_count_size L (unat n);
          bytes = ref_block_count * COUNTS_PER_BLOCK L + 2 * BYTES_PER_WORD
      in reset_search_cursor L
           \<lparr>slab = s,
            block_count = n,
            free_blocks = n,
            counters = replicate bytes 0,
            search_cursor =
              \<lparr>block = 0, index = 0, end_index = 0,
               first_block = 0, last_block = ref_block_count - 1\<rparr>,
            dirty_blocks = [],
            active_count = 0,
            updating_slab_summary = False,
            origin = origin_pbn,
            slab_journal_point = \<lparr>sequence_number = 0, entry_count = 0\<rparr>,
            reference_block_count = of_nat ref_block_count,
            blocks = replicate ref_block_count
              \<lparr>allocated_count = 0, slab_journal_lock = 0, slab_journal_lock_to_release = 0,
               commit_points = replicate (SECTORS_PER_BLOCK L)
                                 \<lparr>sequence_number = 0, entry_count = 0\<rparr>,
               is_dirty = False, is_writing = False\<rparr>\<rparr>)"

text \<open>
  \<^verbatim>\<open>reset_reference_counts\<close>: the \<^verbatim>\<open>memset\<close> over the first \<open>block_count\<close> counters, the
  loop over the block vector, and \<^verbatim>\<open>notifyAllWaiters\<close>, which empties the dirty queue
  and runs \<^verbatim>\<open>clear_dirty_reference_blocks\<close> on each block it held.
\<close>

definition clear_dirty_reference_blocks :: "nat \<Rightarrow> ref_counts \<Rightarrow> ref_counts" where
  "clear_dirty_reference_blocks block_waiter rc =
     map_block block_waiter (\<lambda>b. b\<lparr>is_dirty := False\<rparr>) rc"

definition reset_reference_counts :: "ref_counts \<Rightarrow> ref_counts" where
  "reset_reference_counts rc =
     (let rc1 = rc\<lparr>counters := replicate (unat (block_count rc)) 0
                                 @ drop (unat (block_count rc)) (counters rc),
                   free_blocks := block_count rc,
                   slab_journal_point := \<lparr>sequence_number = 0, entry_count = 0\<rparr>\<rparr>;
          rc2 = fold (\<lambda>i. map_block i (\<lambda>b. b\<lparr>allocated_count := 0\<rparr>))
                  [0..<unat (reference_block_count rc1)] rc1
      in (fold clear_dirty_reference_blocks (dirty_blocks rc2) rc2)\<lparr>dirty_blocks := []\<rparr>)"

subsection \<open>Packing, unpacking and loading a reference block\<close>

text \<open>
  Modelled from the spec: the packed journal point (journalPoint.h is not among the
  sources). Section 6 of the specification lays it out as
  \<open>(sequence:u64, entry:u16, _pad:u16)\<close>, so packing loses nothing.
\<close>

record packed_journal_point =
  packed_sequence :: "64 word"
  packed_entry :: "16 word"

definition pack_journal_point :: "journal_point \<Rightarrow> packed_journal_point" where
  "pack_journal_point p =
     \<lparr>packed_sequence = sequence_number p, packed_entry = entry_count p\<rparr>"

definition unpack_journal_point :: "packed_journal_point \<Rightarrow> journal_point" where
  "unpack_journal_point q =
     \<lparr>sequence_number = packed_sequence q, entry_count = packed_entry q\<rparr>"

record packed_reference_sector =
  commit_point :: packed_journal_point
  counts :: "ReferenceCount list"

type_synonym packed_reference_block = "packed_reference_sector list"

definition get_reference_counters_for_block :: "layout \<Rightarrow> nat \<Rightarrow> nat" where
  "get_reference_counters_for_block L block_index = block_index * COUNTS_PER_BLOCK L"

text \<open>\<^verbatim>\<open>memcpy\<close> of \<open>n\<close> bytes: out of an array, and into an array at a position.\<close>

definition memcpy_from :: "'a list \<Rightarrow> nat \<Rightarrow> nat \<Rightarrow> 'a list" where
  "memcpy_from src pos n = map (\<lambda>k. src ! (pos + k)) [0..<n]"

definition memcpy_to :: "'a list \<Rightarrow> nat \<Rightarrow> 'a list \<Rightarrow> nat \<Rightarrow> 'a list" where
  "memcpy_to dst pos src n = fold (\<lambda>k d. d[pos + k := src ! k]) [0..<n] dst"

definition pack_reference_block :: "layout \<Rightarrow> ref_counts \<Rightarrow> nat \<Rightarrow> packed_reference_block" where
  "pack_reference_block L rc blk =
     (let packed_point = pack_journal_point (slab_journal_point rc);
          base = get_reference_counters_for_block L blk
      in map (\<lambda>i. \<lparr>commit_point = packed_point,
                    counts = memcpy_from (counters rc) (base + i * COUNTS_PER_SECTOR L)
                               (COUNTS_PER_SECTOR L)\<rparr>)
           [0..<SECTORS_PER_BLOCK L])"

text \<open>
  One iteration of the sector loop of \<^verbatim>\<open>unpack_reference_block\<close>; the torn-write warning
  is a log line and leaves no trace in the state.
\<close>

definition unpack_sector ::
  "layout \<Rightarrow> packed_reference_block \<Rightarrow> nat \<Rightarrow> nat \<Rightarrow> ref_counts \<Rightarrow> ref_counts" where
  "unpack_sector L packed blk i rc =
     (let sector = packed ! i;
          rc1 = map_block blk
                  (\<lambda>b. b\<lparr>commit_points :=
                            (commit_points b)[i := unpack_journal_point (commit_point sector)]\<rparr>)
                  rc;
          rc2 = rc1\<lparr>counters :=
                      memcpy_to (counters rc1)
                        (get_reference_counters_for_block L blk + i * COUNTS_PER_SECTOR L)
                        (counts sector) (COUNTS_PER_SECTOR L)\<rparr>
      in
      if before_journal_point (slab_journal_point rc2) (commit_points (blocks rc2 ! blk) ! i)
      then rc2\<lparr>slab_journal_point := commit_points (blocks rc2 ! blk) ! i\<rparr>
      else rc2)"

text \<open>The body of the counting loop that ends \<^verbatim>\<open>unpack_reference_block\<close>.\<close>

definition count_allocated :: "nat \<Rightarrow> nat \<Rightarrow> nat \<Rightarrow> ref_counts \<Rightarrow> ref_counts" where
  "count_allocated blk base idx rc =
     (if counters rc ! (base + idx) \<noteq> EMPTY_REFERENCE_COUNT
      then map_block blk (\<lambda>b. b\<lparr>allocated_count := allocated_count b + 1\<rparr>) rc
      else rc)"

definition unpack_reference_block ::
  "layout \<Rightarrow> packed_reference_block \<Rightarrow> nat \<Rightarrow> ref_counts \<Rightarrow> ref_counts" where
  "unpack_reference_block L packed blk rc =
     (let rc1 = fold (unpack_sector L packed blk) [0..<SECTORS_PER_BLOCK L] rc;
          base = get_reference_counters_for_block L blk;
          rc2 = map_block blk (\<lambda>b. b\<lparr>allocated_count := 0\<rparr>) rc1
      in fold (count_allocated blk base) [0..<COUNTS_PER_BLOCK L] rc2)"

text \<open>The body of the loop of \<^verbatim>\<open>clear_provisional_references\<close>.\<close>

definition clear_provisional_reference :: "nat \<Rightarrow> nat \<Rightarrow> nat \<Rightarrow> ref_counts \<Rightarrow> ref_counts" where
  "clear_provisional_reference blk base j rc =
     (if counters rc ! (base + j) = PROVISIONAL_REFERENCE_COUNT
      then map_block blk (\<lambda>b. b\<lparr>allocated_count := allocated_count b - 1\<rparr>)
             (rc\<lparr>counters := (counters rc)[base + j := EMPTY_REFERENCE_COUNT]\<rparr>)
      else rc)"

definition clear_provisional_references :: "layout \<Rightarrow> nat \<Rightarrow> ref_counts \<Rightarrow> ref_counts" where
  "clear_provisional_references L blk rc =
     fold (clear_provisional_reference blk (get_reference_counters_for_block L blk))
       [0..<COUNTS_PER_BLOCK L] rc"

text \<open>
  \<^verbatim>\<open>finish_reference_block_load\<close> for the block whose read filled \<open>packed\<close>; returning
  the I/O descriptor and the drain check are calls on collaborators that do not touch
  the object.
\<close>

definition finish_reference_block_load ::
  "layout \<Rightarrow> packed_reference_block \<Rightarrow> nat \<Rightarrow> ref_counts \<Rightarrow> ref_counts" where
  "finish_reference_block_load L packed blk rc =
     (let rc1 = unpack_reference_block L packed blk rc;
          rc2 = rc1\<lparr>active_count := active_count rc1 - 1\<rparr>;
          rc3 = clear_provisional_references L blk rc2
      in rc3\<lparr>free_blocks := free_blocks rc3 - ucast (allocated_count (blocks rc3 ! blk))\<rparr>)"

text \<open>
  The counter that a packed block holds for the block's \<open>idx\<close>-th data block: sector
  \<open>idx div COUNTS_PER_SECTOR\<close>, position \<open>idx mod COUNTS_PER_SECTOR\<close>.
\<close>

definition packed_counter :: "layout \<Rightarrow> packed_reference_block \<Rightarrow> nat \<Rightarrow> ReferenceCount" where
  "packed_counter L packed idx =
     counts (packed ! (idx div COUNTS_PER_SECTOR L)) ! (idx mod COUNTS_PER_SECTOR L)"

subsection \<open>A small slab for worked examples\<close>

text \<open>
  Two sectors of four counters per block, twelve data blocks starting at PBN 1000: one
  full reference block and a runt of four counters.
\<close>

definition example_layout :: layout where
  "example_layout = \<lparr>SECTORS_PER_BLOCK = 2, COUNTS_PER_SECTOR = 4\<rparr>"

definition example_slab :: vdo_slab where
  "example_slab = \<lparr>start = 1000, data_blocks = 12, open_state = True\<rparr>"

definition example_ref_counts :: ref_counts where
  "example_ref_counts = make_ref_counts example_layout 12 example_slab 1012"

text \<open>The small slab after PBN 1000 has been provisionally referenced.\<close>

definition example_provisional :: ref_counts where
  "example_provisional =
     fst (snd (provisionally_reference_block example_layout example_ref_counts 1000 None))"

definition example_point :: journal_point where
  "example_point = \<lparr>sequence_number = 7, entry_count = 3\<rparr>"

definition example_increment :: reference_operation where
  "example_increment = \<lparr>type = DATA_INCREMENT, pbn = 1000, lock = Some 5\<rparr>"

definition example_decrement :: reference_operation where
  "example_decrement = \<lparr>type = DATA_DECREMENT, pbn = 1000, lock = None\<rparr>"

definition example_block_map_increment :: reference_operation where
  "example_block_map_increment = \<lparr>type = BLOCK_MAP_INCREMENT, pbn = 1000, lock = Some 5\<rparr>"

text \<open>
  The small slab after the provisional reference on PBN 1000 has been made a real one
  under journal point (7, 3), and then after PBN 1001 has been provisionally
  referenced as well.
\<close>

definition example_journalled :: ref_counts where
  "example_journalled =
     fst (snd (adjust_reference_count example_layout example_provisional example_increment
                 (Some example_point)))"

definition example_mixed :: ref_counts where
  "example_mixed =
     fst (snd (provisionally_reference_block example_layout example_journalled 1001 None))"

subsection \<open>Well-formed objects and the counting invariants\<close>

text \<open>
  The shape \<^verbatim>\<open>make_ref_counts\<close> gives an object and every operation keeps: a block
  count that is positive and leaves room for the word search below \<open>2^32\<close>, as many
  reference blocks as the saved size, a counter array with a full last block and two
  words of padding, and a search cursor that points at a block of the vector, with its
  index at most its end index and its end index the end of that block (the end of the
  slab for the runt).
\<close>

definition well_formed :: "layout \<Rightarrow> ref_counts \<Rightarrow> bool" where
  "well_formed L rc \<longleftrightarrow>
     0 < COUNTS_PER_BLOCK L
     \<and> 0 < unat (block_count rc)
     \<and> unat (block_count rc) + 8 \<le> 2 ^ 32
     \<and> length (blocks rc) = get_saved_reference_count_size L (unat (block_count rc))
     \<and> unat (reference_block_count rc) = length (blocks rc)
     \<and> length (counters rc) = length (blocks rc) * COUNTS_PER_BLOCK L + 2 * BYTES_PER_WORD
     \<and> first_block (search_cursor rc) = 0
     \<and> last_block (search_cursor rc) = length (blocks rc) - 1
     \<and> block (search_cursor rc) \<le> last_block (search_cursor rc)
     \<and> index (search_cursor rc) \<le> end_index (search_cursor rc)
     \<and> unat (end_index (search_cursor rc))
         = min ((block (search_cursor rc) + 1) * COUNTS_PER_BLOCK L) (unat (block_count rc))"

text \<open>
  The quantities of the three invariants: the number of \<open>EMPTY\<close> counters below
  \<open>block_count\<close>, the index range of reference block \<open>j\<close>, and the number of counters
  in that range that are not \<open>EMPTY\<close>.
\<close>

definition unreferenced_count :: "ref_counts \<Rightarrow> nat" where
  "unreferenced_count rc =
     length (filter (\<lambda>i. counters rc ! i = EMPTY_REFERENCE_COUNT) [0..<unat (block_count rc)])"

definition block_range :: "layout \<Rightarrow> ref_counts \<Rightarrow> nat \<Rightarrow> nat list" where
  "block_range L rc j =
     [j * COUNTS_PER_BLOCK L ..< min ((j + 1) * COUNTS_PER_BLOCK L) (unat (block_count rc))]"

definition referenced_in_block :: "layout \<Rightarrow> ref_counts \<Rightarrow> nat \<Rightarrow> nat" where
  "referenced_in_block L rc j =
     length (filter (\<lambda>i. counters rc ! i \<noteq> EMPTY_REFERENCE_COUNT) (block_range L rc j))"

definition counts_consistent :: "layout \<Rightarrow> ref_counts \<Rightarrow> bool" where
  "counts_consistent L rc \<longleftrightarrow>
     unat (free_blocks rc) = unreferenced_count rc
     \<and> list_all (\<lambda>j. unat (allocated_count (blocks rc ! j)) = referenced_in_block L rc j)
          [0..<length (blocks rc)]"

text \<open>
  The states the claims about "every reachable state" range over: a fresh object, and
  from there any sequence of the operations, whatever their arguments and results. A
  replayed slab journal entry names a block of the slab (\<^verbatim>\<open>replay_reference_count_change\<close>
  indexes the arrays with \<open>entry.sbn\<close> as it is). The admin state of the slab, which
  the slab's owner changes between operations, may change at any time.
\<close>

inductive reachable ::
  "layout \<Rightarrow> 32 word \<Rightarrow> vdo_slab \<Rightarrow> PhysicalBlockNumber \<Rightarrow> ref_counts \<Rightarrow> bool"
  for L :: layout and n :: "32 word" and s :: vdo_slab and origin_pbn :: PhysicalBlockNumber
  where
    fresh: "reachable L n s origin_pbn (make_ref_counts L n s origin_pbn)"
  | adjust:
      "reachable L n s origin_pbn rc \<Longrightarrow>
       adjust_reference_count L rc op point = (result, rc', fsc, calls) \<Longrightarrow>
       reachable L n s origin_pbn rc'"
  | allocate:
      "reachable L n s origin_pbn rc \<Longrightarrow>
       allocate_unreferenced_block L rc = Some (result, rc', allocated, calls) \<Longrightarrow>
       reachable L n s origin_pbn rc'"
  | provisional:
      "reachable L n s origin_pbn rc \<Longrightarrow>
       provisionally_reference_block L rc p lck = (result, rc', calls) \<Longrightarrow>
       reachable L n s origin_pbn rc'"
  | rebuild:
      "reachable L n s origin_pbn rc \<Longrightarrow>
       adjust_reference_count_for_rebuild L rc p jop = (result, rc', calls) \<Longrightarrow>
       reachable L n s origin_pbn rc'"
  | replay:
      "reachable L n s origin_pbn rc \<Longrightarrow>
       sbn entry < block_count rc \<Longrightarrow>
       replay_reference_count_change L rc entry_point entry = (result, rc', calls) \<Longrightarrow>
       reachable L n s origin_pbn rc'"
  | reset:
      "reachable L n s origin_pbn rc \<Longrightarrow>
       reachable L n s origin_pbn (reset_reference_counts rc)"
  | admin_state:
      "reachable L n s origin_pbn rc \<Longrightarrow>
       reachable L n s origin_pbn (rc\<lparr>slab := (slab rc)\<lparr>open_state := b\<rparr>\<rparr>)"

text \<open>What every reachable state satisfies, given a sound geometry.\<close>

definition ref_counts_invariant :: "layout \<Rightarrow> ref_counts \<Rightarrow> bool" where
  "ref_counts_invariant L rc \<longleftrightarrow>
     well_formed L rc
     \<and> counts_consistent L rc
     \<and> COUNTS_PER_BLOCK L < 65536
     \<and> unat (data_blocks (slab rc)) \<le> unat (block_count rc)"

text \<open>
  The four ways one call of the update core can leave the object: unchanged; the
  counter at \<open>i\<close> rewritten from a non-\<open>EMPTY\<close> value to a non-\<open>EMPTY\<close> value; the
  counter taken from \<open>EMPTY\<close>, with the block's \<open>allocated_count\<close> raised and
  \<open>free_blocks\<close> lowered; the counter released to \<open>EMPTY\<close>, with the opposite
  bookkeeping.
\<close>

definition counter_transition :: "ref_counts \<Rightarrow> nat \<Rightarrow> nat \<Rightarrow> ref_counts \<Rightarrow> bool" where
  "counter_transition rc blk i rc1 \<longleftrightarrow>
     rc1 = rc
     \<or> (\<exists>v. v \<noteq> EMPTY_REFERENCE_COUNT \<and> counters rc ! i \<noteq> EMPTY_REFERENCE_COUNT
            \<and> rc1 = rc\<lparr>counters := (counters rc)[i := v]\<rparr>)
     \<or> (\<exists>v. v \<noteq> EMPTY_REFERENCE_COUNT \<and> counters rc ! i = EMPTY_REFERENCE_COUNT
            \<and> rc1 = (map_block blk (\<lambda>b. b\<lparr>allocated_count := allocated_count b + 1\<rparr>)
                        (rc\<lparr>counters := (counters rc)[i := v]\<rparr>))
                       \<lparr>free_blocks := free_blocks rc - 1\<rparr>)
     \<or> (counters rc ! i \<noteq> EMPTY_REFERENCE_COUNT
            \<and> rc1 = (map_block blk (\<lambda>b. b\<lparr>allocated_count := allocated_count b - 1\<rparr>)
                        (rc\<lparr>counters := (counters rc)[i := EMPTY_REFERENCE_COUNT]\<rparr>))
                       \<lparr>free_blocks := free_blocks rc + 1\<rparr>)"

section \<open>Verified properties\<close>

subsection \<open>Field lemmas for the block stores\<close>

lemma map_block_simps [simp]:
  "blocks (map_block b f rc) = (blocks rc)[b := f (blocks rc ! b)]"
  "counters (map_block b f rc) = counters rc"
  "free_blocks (map_block b f rc) = free_blocks rc"
  "slab (map_block b f rc) = slab rc"
  "block_count (map_block b f rc) = block_count rc"
  "search_cursor (map_block b f rc) = search_cursor rc"
  "dirty_blocks (map_block b f rc) = dirty_blocks rc"
  "slab_journal_point (map_block b f rc) = slab_journal_point rc"
  "reference_block_count (map_block b f rc) = reference_block_count rc"
  "active_count (map_block b f rc) = active_count rc"
  "origin (map_block b f rc) = origin rc"
  "updating_slab_summary (map_block b f rc) = updating_slab_summary rc"
  by (simp_all add: map_block_def)

lemma dirty_block_simps [simp]:
  "counters (dirty_block b rc) = counters rc"
  "free_blocks (dirty_block b rc) = free_blocks rc"
  "slab (dirty_block b rc) = slab rc"
  "block_count (dirty_block b rc) = block_count rc"
  "search_cursor (dirty_block b rc) = search_cursor rc"
  "slab_journal_point (dirty_block b rc) = slab_journal_point rc"
  "reference_block_count (dirty_block b rc) = reference_block_count rc"
  "length (blocks (dirty_block b rc)) = length (blocks rc)"
  by (simp_all add: dirty_block_def enqueue_dirty_block_def Let_def)

lemma dirty_block_blocks:
  "b < length (blocks rc) \<Longrightarrow>
   blocks (dirty_block b rc) = (blocks rc)[b := (blocks rc ! b)\<lparr>is_dirty := True\<rparr>]"
  by (auto simp: dirty_block_def enqueue_dirty_block_def Let_def list_eq_iff_nth_eq nth_list_update)

lemma dirty_block_allocated [simp]:
  "b < length (blocks rc) \<Longrightarrow>
   allocated_count (blocks (dirty_block b rc) ! j) = allocated_count (blocks rc ! j)"
  by (cases "j = b") (simp_all add: dirty_block_blocks)

lemma not_max_le_one [simp]: "\<not> (254 :: 8 word) \<le> 1"
  by (simp add: word_le_nat_alt)

lemma example_fields:
  "slab example_ref_counts = example_slab"
  "block_count example_ref_counts = 12"
  "free_blocks example_ref_counts = 12"
  "counters example_ref_counts = replicate 32 0"
  "length (blocks example_ref_counts) = 2"
  "reference_block_count example_ref_counts = 2"
  "dirty_blocks example_ref_counts = []"
  by (simp_all add: example_ref_counts_def make_ref_counts_def reset_search_cursor_def
        get_saved_reference_count_size_def COUNTS_PER_BLOCK_def example_layout_def
        BYTES_PER_WORD_def Let_def)

subsection \<open>Available references\<close>

text \<open>
  C10. For every PBN that \<^verbatim>\<open>slab_block_number_from_pbn\<close> rejects (it does not map to a data
  block of the slab), \<^verbatim>\<open>get_available_references\<close> returns 0, not an error; for every PBN
  it accepts, the result is 254 minus the counter, with a provisional counter (255)
  counted as 1, which gives 253.
\<close>

theorem get_available_references_total:
  "(\<forall>e. slab_block_number_from_pbn (slab rc) p = Inl e \<longrightarrow> get_available_references rc p = 0)
   \<and> (\<forall>i. slab_block_number_from_pbn (slab rc) p = Inr i \<longrightarrow>
          get_available_references rc p =
            (if counters rc ! unat i = 255 then 253 else 254 - counters rc ! unat i))"
  by (simp add: get_available_references_def get_reference_counter_def
        PROVISIONAL_REFERENCE_COUNT_def MAXIMUM_REFERENCE_COUNT_def)

theorem get_available_references_total_witness:
  "slab_block_number_from_pbn
     (slab (example_ref_counts\<lparr>counters := (counters example_ref_counts)[0 := 255, 1 := 7]\<rparr>))
     999 = Inl VDO_OUT_OF_RANGE
   \<and> get_available_references
       (example_ref_counts\<lparr>counters := (counters example_ref_counts)[0 := 255, 1 := 7]\<rparr>) 999 = 0
   \<and> slab_block_number_from_pbn
       (slab (example_ref_counts\<lparr>counters := (counters example_ref_counts)[0 := 255, 1 := 7]\<rparr>))
       1000 = Inr 0
   \<and> get_available_references
       (example_ref_counts\<lparr>counters := (counters example_ref_counts)[0 := 255, 1 := 7]\<rparr>) 1000
     = 253"
proof -
  let ?rc = "example_ref_counts\<lparr>counters := (counters example_ref_counts)[0 := 255, 1 := 7]\<rparr>"
  have out: "slab_block_number_from_pbn (slab ?rc) 999 = Inl VDO_OUT_OF_RANGE"
    by (simp add: example_fields example_slab_def slab_block_number_from_pbn_def)
  have inr: "slab_block_number_from_pbn (slab ?rc) 1000 = Inr 0"
    by (simp add: example_fields example_slab_def slab_block_number_from_pbn_def)
  have c0: "counters ?rc ! unat (0 :: 32 word) = 255"
    by (simp add: example_fields)
  from get_available_references_total [of ?rc 999] out
  have a: "get_available_references ?rc 999 = 0" by blast
  from get_available_references_total [of ?rc 1000] inr c0
  have b: "get_available_references ?rc 1000 = 253" by simp
  from out a inr b show ?thesis by blast
qed

lemma dirty_block_lock [simp]:
  "b < length (blocks rc) \<Longrightarrow>
   slab_journal_lock (blocks (dirty_block b rc) ! j) = slab_journal_lock (blocks rc ! j)"
  by (cases "j = b") (simp_all add: dirty_block_blocks)

lemma dirty_block_is_dirty [simp]:
  "b < length (blocks rc) \<Longrightarrow> is_dirty (blocks (dirty_block b rc) ! b)"
  by (simp add: dirty_block_blocks)

subsection \<open>The transition tables of the update core\<close>

text \<open>
  C2. A \<open>DATA_INCREMENT\<close> applied by \<^verbatim>\<open>adjust_reference_count\<close> to an in-range block of
  an open slab: from \<open>FREE\<close> the counter becomes 1, the containing block's
  \<open>allocated_count\<close> goes up by one, \<open>free_blocks\<close> goes down by one and
  \<open>free_status_changed\<close> is set to true; from \<open>PROVISIONAL\<close> the counter becomes 1 with
  \<open>free_status_changed\<close> false; from \<open>SINGLE\<close> or \<open>SHARED\<close> below the maximum the counter
  goes up by one with \<open>free_status_changed\<close> false; at the maximum (254) the call returns
  \<open>VDO_REF_COUNT_INVALID\<close> and changes nothing; and every successful call with a lock
  calls \<^verbatim>\<open>unassign_provisional_reference\<close> on it.
\<close>

theorem data_increment_transitions:
  assumes "is_slab_open (slab rc)"
    and "slab_block_number_from_pbn (slab rc) (pbn op) = Inr i"
    and "type op = DATA_INCREMENT"
    and "unat i < length (counters rc)"
    and "get_reference_block L i < length (blocks rc)"
    and "adjust_reference_count L rc op point = (result, rc', fsc, calls)"
  shows "(reference_count_to_status (counters rc ! unat i) = RS_FREE \<longrightarrow>
            counters rc' = (counters rc)[unat i := 1]
            \<and> allocated_count (blocks rc' ! get_reference_block L i)
                = allocated_count (blocks rc ! get_reference_block L i) + 1
            \<and> free_blocks rc' = free_blocks rc - 1
            \<and> fsc = Some True)
       \<and> (reference_count_to_status (counters rc ! unat i) = RS_PROVISIONAL \<longrightarrow>
            counters rc' = (counters rc)[unat i := 1]
            \<and> allocated_count (blocks rc' ! get_reference_block L i)
                = allocated_count (blocks rc ! get_reference_block L i)
            \<and> free_blocks rc' = free_blocks rc
            \<and> fsc = Some False)
       \<and> (reference_count_to_status (counters rc ! unat i) \<in> {RS_SINGLE, RS_SHARED}
            \<and> counters rc ! unat i < 254 \<longrightarrow>
            counters rc' = (counters rc)[unat i := counters rc ! unat i + 1]
            \<and> allocated_count (blocks rc' ! get_reference_block L i)
                = allocated_count (blocks rc ! get_reference_block L i)
            \<and> free_blocks rc' = free_blocks rc
            \<and> fsc = Some False)
       \<and> (counters rc ! unat i = 254 \<longrightarrow> result = VDO_REF_COUNT_INVALID \<and> rc' = rc)
       \<and> (\<forall>l. result = VDO_SUCCESS \<and> lock op = Some l \<longrightarrow>
              unassign_provisional_reference l \<in> set calls)"
  using assms
  by (auto simp: adjust_reference_count_def update_reference_count_def increment_for_data_def
        reference_count_to_status_def get_reference_operation_pbn_lock_def Let_def
        EMPTY_REFERENCE_COUNT_def PROVISIONAL_REFERENCE_COUNT_def MAXIMUM_REFERENCE_COUNT_def
      split: if_splits option.splits reference_status.splits)

theorem data_increment_transitions_witness:
  "is_slab_open (slab example_ref_counts)
   \<and> slab_block_number_from_pbn (slab example_ref_counts) (pbn example_increment) = Inr 0
   \<and> reference_count_to_status (counters example_ref_counts ! unat (0 :: 32 word)) = RS_FREE
   \<and> fst (adjust_reference_count example_layout example_ref_counts example_increment
            (Some example_point)) = VDO_SUCCESS
   \<and> counters (fst (snd (adjust_reference_count example_layout example_ref_counts
                            example_increment (Some example_point))))
       = (counters example_ref_counts)[unat (0 :: 32 word) := 1]
   \<and> free_blocks (fst (snd (adjust_reference_count example_layout example_ref_counts
                               example_increment (Some example_point))))
       = free_blocks example_ref_counts - 1
   \<and> fst (snd (snd (adjust_reference_count example_layout example_ref_counts
                       example_increment (Some example_point)))) = Some True
   \<and> unassign_provisional_reference 5
       \<in> set (snd (snd (snd (adjust_reference_count example_layout example_ref_counts
                                example_increment (Some example_point)))))"
proof -
  let ?r = "adjust_reference_count example_layout example_ref_counts example_increment
              (Some example_point)"
  have h1: "is_slab_open (slab example_ref_counts)" by code_simp
  have h2: "slab_block_number_from_pbn (slab example_ref_counts) (pbn example_increment) = Inr 0"
    by code_simp
  have h3: "type example_increment = DATA_INCREMENT" by (simp add: example_increment_def)
  have h4: "unat (0 :: 32 word) < length (counters example_ref_counts)" by code_simp
  have h5: "get_reference_block example_layout 0 < length (blocks example_ref_counts)"
    by code_simp
  have h6: "?r = (fst ?r, fst (snd ?r), fst (snd (snd ?r)), snd (snd (snd ?r)))" by simp
  have st: "reference_count_to_status (counters example_ref_counts ! unat (0 :: 32 word)) = RS_FREE"
    by code_simp
  have ok: "fst ?r = VDO_SUCCESS" by code_simp
  have lk: "lock example_increment = Some 5" by (simp add: example_increment_def)
  from data_increment_transitions [OF h1 h2 h3 h4 h5 h6] st ok lk h1 h2
  show ?thesis by simp
qed

text \<open>
  C3. A \<open>DATA_DECREMENT\<close> applied by \<^verbatim>\<open>adjust_reference_count\<close> to an in-range block of
  an open slab: from \<open>FREE\<close> the call returns \<open>VDO_REF_COUNT_INVALID\<close>; from \<open>PROVISIONAL\<close>
  or \<open>SINGLE\<close> with a lock the counter becomes \<open>PROVISIONAL\<close>, \<open>free_status_changed\<close> is
  false and \<^verbatim>\<open>assign_provisional_reference\<close> is called on the lock; from \<open>PROVISIONAL\<close> or
  \<open>SINGLE\<close> without a lock the counter becomes \<open>EMPTY\<close>, the block's \<open>allocated_count\<close>
  goes down by one, \<open>free_blocks\<close> goes up by one and \<open>free_status_changed\<close> is true; from
  \<open>SHARED\<close> the counter goes down by one with \<open>free_status_changed\<close> false; and the
  update is flagged as a provisional decrement exactly when the old status was
  \<open>PROVISIONAL\<close>.
\<close>

theorem data_decrement_transitions:
  assumes "is_slab_open (slab rc)"
    and "slab_block_number_from_pbn (slab rc) (pbn op) = Inr i"
    and "type op = DATA_DECREMENT"
    and "unat i < length (counters rc)"
    and "get_reference_block L i < length (blocks rc)"
    and "adjust_reference_count L rc op point = (result, rc', fsc, calls)"
  shows "(reference_count_to_status (counters rc ! unat i) = RS_FREE \<longrightarrow>
            result = VDO_REF_COUNT_INVALID \<and> rc' = rc)
       \<and> (\<forall>l. reference_count_to_status (counters rc ! unat i) \<in> {RS_PROVISIONAL, RS_SINGLE}
              \<and> lock op = Some l \<longrightarrow>
              counters rc' = (counters rc)[unat i := 255]
              \<and> allocated_count (blocks rc' ! get_reference_block L i)
                  = allocated_count (blocks rc ! get_reference_block L i)
              \<and> free_blocks rc' = free_blocks rc
              \<and> fsc = Some False
              \<and> assign_provisional_reference l \<in> set calls)
       \<and> (reference_count_to_status (counters rc ! unat i) \<in> {RS_PROVISIONAL, RS_SINGLE}
            \<and> lock op = None \<longrightarrow>
            counters rc' = (counters rc)[unat i := 0]
            \<and> allocated_count (blocks rc' ! get_reference_block L i)
                = allocated_count (blocks rc ! get_reference_block L i) - 1
            \<and> free_blocks rc' = free_blocks rc + 1
            \<and> fsc = Some True)
       \<and> (reference_count_to_status (counters rc ! unat i) = RS_SHARED \<longrightarrow>
            counters rc' = (counters rc)[unat i := counters rc ! unat i - 1]
            \<and> allocated_count (blocks rc' ! get_reference_block L i)
                = allocated_count (blocks rc ! get_reference_block L i)
            \<and> free_blocks rc' = free_blocks rc
            \<and> fsc = Some False)
       \<and> fst (snd (snd (snd (update_reference_count rc (get_reference_block L i) i point op
                                 NORMAL_OPERATION))))
           = (reference_count_to_status (counters rc ! unat i) = RS_PROVISIONAL)"
  using assms
  by (auto simp: adjust_reference_count_def update_reference_count_def decrement_for_data_def
        reference_count_to_status_def get_reference_operation_pbn_lock_def Let_def
        EMPTY_REFERENCE_COUNT_def PROVISIONAL_REFERENCE_COUNT_def MAXIMUM_REFERENCE_COUNT_def
      split: if_splits option.splits reference_status.splits)

theorem data_decrement_transitions_witness:
  "is_slab_open (slab example_provisional)
   \<and> slab_block_number_from_pbn (slab example_provisional) (pbn example_decrement) = Inr 0
   \<and> reference_count_to_status (counters example_provisional ! unat (0 :: 32 word))
       = RS_PROVISIONAL
   \<and> lock example_decrement = None
   \<and> counters (fst (snd (adjust_reference_count example_layout example_provisional
                            example_decrement (Some example_point))))
       = (counters example_provisional)[unat (0 :: 32 word) := 0]
   \<and> free_blocks (fst (snd (adjust_reference_count example_layout example_provisional
                               example_decrement (Some example_point))))
       = free_blocks example_provisional + 1
   \<and> fst (snd (snd (adjust_reference_count example_layout example_provisional
                       example_decrement (Some example_point)))) = Some True
   \<and> fst (snd (snd (snd (update_reference_count example_provisional
                             (get_reference_block example_layout 0) 0 (Some example_point)
                             example_decrement NORMAL_OPERATION))))"
proof -
  let ?r = "adjust_reference_count example_layout example_provisional example_decrement
              (Some example_point)"
  have h1: "is_slab_open (slab example_provisional)" by code_simp
  have h2: "slab_block_number_from_pbn (slab example_provisional) (pbn example_decrement) = Inr 0"
    by code_simp
  have h3: "type example_decrement = DATA_DECREMENT" by (simp add: example_decrement_def)
  have h4: "unat (0 :: 32 word) < length (counters example_provisional)" by code_simp
  have h5: "get_reference_block example_layout 0 < length (blocks example_provisional)"
    by code_simp
  have h6: "?r = (fst ?r, fst (snd ?r), fst (snd (snd ?r)), snd (snd (snd ?r)))" by simp
  have st: "reference_count_to_status (counters example_provisional ! unat (0 :: 32 word))
              = RS_PROVISIONAL"
    by code_simp
  have lk: "lock example_decrement = None" by (simp add: example_decrement_def)
  from data_decrement_transitions [OF h1 h2 h3 h4 h5 h6] st lk h1 h2
  show ?thesis by simp
qed

text \<open>
  C6. A \<open>BLOCK_MAP_INCREMENT\<close> through \<^verbatim>\<open>update_reference_count\<close> (normal operation is
  the call from \<^verbatim>\<open>adjust_reference_count\<close>; replay and rebuild pass
  \<open>normal_operation = false\<close>): \<open>FREE\<close> in normal operation is an error; \<open>FREE\<close> during
  replay or rebuild sets the counter to the maximum, raises the block's
  \<open>allocated_count\<close>, lowers \<open>free_blocks\<close> and reports \<open>free_status_changed\<close> true;
  \<open>PROVISIONAL\<close> in normal operation sets the counter to the maximum with
  \<open>free_status_changed\<close> false and unassigns the provisional reference of a lock that is
  not null; \<open>PROVISIONAL\<close> during replay is an error; every other status is an error.
  Errors leave the object as it was.
\<close>

theorem block_map_increment_transitions:
  assumes "type op = BLOCK_MAP_INCREMENT"
    and "unat i < length (counters rc)"
    and "blk < length (blocks rc)"
    and "update_reference_count rc blk i point op normal_operation
           = (result, rc', fsc, flagged, calls)"
  shows "(reference_count_to_status (counters rc ! unat i) = RS_FREE \<and> normal_operation \<longrightarrow>
            result = VDO_REF_COUNT_INVALID \<and> rc' = rc)
       \<and> (reference_count_to_status (counters rc ! unat i) = RS_FREE \<and> \<not> normal_operation \<longrightarrow>
            result = VDO_SUCCESS
            \<and> counters rc' = (counters rc)[unat i := 254]
            \<and> allocated_count (blocks rc' ! blk) = allocated_count (blocks rc ! blk) + 1
            \<and> free_blocks rc' = free_blocks rc - 1
            \<and> fsc = Some True)
       \<and> (reference_count_to_status (counters rc ! unat i) = RS_PROVISIONAL \<and> normal_operation \<longrightarrow>
            result = VDO_SUCCESS
            \<and> counters rc' = (counters rc)[unat i := 254]
            \<and> allocated_count (blocks rc' ! blk) = allocated_count (blocks rc ! blk)
            \<and> free_blocks rc' = free_blocks rc
            \<and> fsc = Some False
            \<and> calls = (case lock op of None \<Rightarrow> []
                                     | Some l \<Rightarrow> [unassign_provisional_reference l]))
       \<and> (reference_count_to_status (counters rc ! unat i) = RS_PROVISIONAL
            \<and> \<not> normal_operation \<longrightarrow>
            result = VDO_REF_COUNT_INVALID \<and> rc' = rc)
       \<and> (reference_count_to_status (counters rc ! unat i) \<in> {RS_SINGLE, RS_SHARED} \<longrightarrow>
            result = VDO_REF_COUNT_INVALID \<and> rc' = rc)"
  using assms
  by (auto simp: update_reference_count_def increment_for_block_map_def
        reference_count_to_status_def get_reference_operation_pbn_lock_def Let_def
        EMPTY_REFERENCE_COUNT_def PROVISIONAL_REFERENCE_COUNT_def MAXIMUM_REFERENCE_COUNT_def
      split: if_splits option.splits reference_status.splits)

theorem block_map_increment_transitions_witness:
  "type example_block_map_increment = BLOCK_MAP_INCREMENT
   \<and> reference_count_to_status (counters example_provisional ! unat (0 :: 32 word))
       = RS_PROVISIONAL
   \<and> fst (update_reference_count example_provisional 0 0 (Some example_point)
            example_block_map_increment True) = VDO_SUCCESS
   \<and> counters (fst (snd (update_reference_count example_provisional 0 0 (Some example_point)
                            example_block_map_increment True)))
       = (counters example_provisional)[unat (0 :: 32 word) := 254]
   \<and> fst (snd (snd (update_reference_count example_provisional 0 0 (Some example_point)
                       example_block_map_increment True))) = Some False
   \<and> snd (snd (snd (snd (update_reference_count example_provisional 0 0 (Some example_point)
                             example_block_map_increment True))))
       = [unassign_provisional_reference 5]
   \<and> reference_count_to_status (counters example_ref_counts ! unat (0 :: 32 word)) = RS_FREE
   \<and> fst (update_reference_count example_ref_counts 0 0 (Some example_point)
            example_block_map_increment True) = VDO_REF_COUNT_INVALID"
proof -
  let ?r = "update_reference_count example_provisional 0 0 (Some example_point)
              example_block_map_increment True"
  let ?q = "update_reference_count example_ref_counts 0 0 (Some example_point)
              example_block_map_increment True"
  have h1: "type example_block_map_increment = BLOCK_MAP_INCREMENT"
    by (simp add: example_block_map_increment_def)
  have h2: "unat (0 :: 32 word) < length (counters example_provisional)" by code_simp
  have h3: "0 < length (blocks example_provisional)" by code_simp
  have h4: "?r = (fst ?r, fst (snd ?r), fst (snd (snd ?r)), fst (snd (snd (snd ?r))),
                  snd (snd (snd (snd ?r))))"
    by simp
  have g2: "unat (0 :: 32 word) < length (counters example_ref_counts)" by code_simp
  have g3: "0 < length (blocks example_ref_counts)" by code_simp
  have g4: "?q = (fst ?q, fst (snd ?q), fst (snd (snd ?q)), fst (snd (snd (snd ?q))),
                  snd (snd (snd (snd ?q))))"
    by simp
  have st: "reference_count_to_status (counters example_provisional ! unat (0 :: 32 word))
              = RS_PROVISIONAL"
    by code_simp
  have sf: "reference_count_to_status (counters example_ref_counts ! unat (0 :: 32 word)) = RS_FREE"
    by code_simp
  have lk: "lock example_block_map_increment = Some 5"
    by (simp add: example_block_map_increment_def)
  from block_map_increment_transitions [OF h1 h2 h3 h4]
       block_map_increment_transitions [OF h1 g2 g3 g4] st sf lk h1
  show ?thesis by simp
qed

subsection \<open>The journal interaction of \<^verbatim>\<open>adjust_reference_count\<close>\<close>

lemma update_reference_count_block_flags:
  assumes "update_reference_count rc blk i point op normal = (result, rc1, fsc, flagged, calls)"
    and "blk < length (blocks rc)"
  shows "is_dirty (blocks rc1 ! blk) = is_dirty (blocks rc ! blk)"
    and "slab_journal_lock (blocks rc1 ! blk) = slab_journal_lock (blocks rc ! blk)"
    and "length (blocks rc1) = length (blocks rc)"
    and "dirty_blocks rc1 = dirty_blocks rc"
    and "\<forall>s d. adjust_slab_journal_block_reference s d \<notin> set calls"
  using assms
  by (auto simp: update_reference_count_def increment_for_data_def decrement_for_data_def
        increment_for_block_map_def Let_def
      split: if_splits option.splits reference_status.splits journal_operation.splits)

lemma update_reference_count_journal_point:
  assumes "update_reference_count rc blk i point op normal = (VDO_SUCCESS, rc1, fsc, flagged, calls)"
  shows "flagged = (type op = DATA_DECREMENT
                    \<and> reference_count_to_status (counters rc ! unat i) = RS_PROVISIONAL)"
    and "flagged \<Longrightarrow> slab_journal_point rc1 = slab_journal_point rc"
    and "\<not> flagged \<Longrightarrow> is_valid_journal_point point \<Longrightarrow> Some (slab_journal_point rc1) = point"
    and "\<not> flagged \<Longrightarrow> \<not> is_valid_journal_point point \<Longrightarrow>
         slab_journal_point rc1 = slab_journal_point rc"
  using assms
  by (auto simp: update_reference_count_def increment_for_data_def decrement_for_data_def
        increment_for_block_map_def Let_def is_valid_journal_point_def
      split: if_splits option.splits reference_status.splits journal_operation.splits)

text \<open>
  C4, as the source has it. The claim reads "for every successful update"; the source
  returns early from a successful provisional decrement (a \<open>DATA_DECREMENT\<close> of a
  \<open>PROVISIONAL\<close> counter), before any of the journal bookkeeping. The first theorem is
  that update on the small slab: it succeeds with a valid journal point, and neither is
  \<open>slab_journal_point\<close> advanced nor the clean block marked dirty.
\<close>

theorem journal_interaction_counterexample:
  "fst (adjust_reference_count example_layout example_provisional example_decrement
          (Some example_point)) = VDO_SUCCESS
   \<and> is_valid_journal_point (Some example_point)
   \<and> slab_journal_point
        (fst (snd (adjust_reference_count example_layout example_provisional example_decrement
                     (Some example_point)))) \<noteq> example_point
   \<and> \<not> is_dirty (blocks example_provisional ! get_reference_block example_layout 0)
   \<and> \<not> is_dirty
         (blocks (fst (snd (adjust_reference_count example_layout example_provisional
                              example_decrement (Some example_point))))
            ! get_reference_block example_layout 0)"
  by code_simp

text \<open>
  C4, amended. For every successful update through \<^verbatim>\<open>adjust_reference_count\<close> that is
  not a provisional decrement: a valid journal point becomes the \<open>slab_journal_point\<close>
  (an invalid one leaves it alone); if the target block is dirty with
  \<open>slab_journal_lock > 0\<close>, the journal point is valid, the slab journal's reference for
  its sequence number is adjusted by \<open>-1\<close>, and the block's lock and the dirty queue are
  left unchanged; otherwise the block's lock is set to the journal point's sequence
  number (0 without a valid journal point), the block is marked dirty and the slab
  journal is not called. A successful provisional decrement leaves \<open>slab_journal_point\<close>,
  the block's lock, its dirty flag and the dirty queue unchanged and does not call the
  slab journal.
\<close>

theorem journal_interaction:
  assumes "is_slab_open (slab rc)"
    and "slab_block_number_from_pbn (slab rc) (pbn op) = Inr i"
    and "get_reference_block L i < length (blocks rc)"
    and "adjust_reference_count L rc op point = (VDO_SUCCESS, rc', fsc, calls)"
  shows "(type op = DATA_DECREMENT
          \<and> reference_count_to_status (counters rc ! unat i) = RS_PROVISIONAL \<longrightarrow>
            slab_journal_point rc' = slab_journal_point rc
            \<and> slab_journal_lock (blocks rc' ! get_reference_block L i)
                = slab_journal_lock (blocks rc ! get_reference_block L i)
            \<and> is_dirty (blocks rc' ! get_reference_block L i)
                = is_dirty (blocks rc ! get_reference_block L i)
            \<and> dirty_blocks rc' = dirty_blocks rc
            \<and> (\<forall>s d. adjust_slab_journal_block_reference s d \<notin> set calls))
       \<and> (\<not> (type op = DATA_DECREMENT
              \<and> reference_count_to_status (counters rc ! unat i) = RS_PROVISIONAL) \<longrightarrow>
            (is_valid_journal_point point \<longrightarrow> Some (slab_journal_point rc') = point)
            \<and> (\<not> is_valid_journal_point point \<longrightarrow>
                 slab_journal_point rc' = slab_journal_point rc)
            \<and> (is_dirty (blocks rc ! get_reference_block L i)
                \<and> 0 < slab_journal_lock (blocks rc ! get_reference_block L i) \<longrightarrow>
                  (\<exists>p. point = Some p \<and> is_valid_journal_point point
                        \<and> adjust_slab_journal_block_reference (sequence_number p) (- 1) \<in> set calls)
                  \<and> slab_journal_lock (blocks rc' ! get_reference_block L i)
                      = slab_journal_lock (blocks rc ! get_reference_block L i)
                  \<and> is_dirty (blocks rc' ! get_reference_block L i)
                  \<and> dirty_blocks rc' = dirty_blocks rc)
            \<and> (\<not> (is_dirty (blocks rc ! get_reference_block L i)
                   \<and> 0 < slab_journal_lock (blocks rc ! get_reference_block L i)) \<longrightarrow>
                  slab_journal_lock (blocks rc' ! get_reference_block L i)
                    = (case point of
                         Some p \<Rightarrow> if is_valid_journal_point point then sequence_number p else 0
                       | None \<Rightarrow> 0)
                  \<and> is_dirty (blocks rc' ! get_reference_block L i)
                  \<and> (\<forall>s d. adjust_slab_journal_block_reference s d \<notin> set calls)))"
proof -
  let ?b = "get_reference_block L i"
  obtain result rc1 fsc1 flagged calls1 where
    u: "update_reference_count rc ?b i point op NORMAL_OPERATION
          = (result, rc1, fsc1, flagged, calls1)"
    by (metis prod_cases5)
  note flags = update_reference_count_block_flags [OF u assms(3)]
  from assms(1,2,4) u have succ: "result = VDO_SUCCESS"
    by (auto simp: adjust_reference_count_def Let_def split: if_splits option.splits)
  note jp = update_reference_count_journal_point [OF u [unfolded succ]]
  show ?thesis
  proof (cases flagged)
    case True
    with assms(1,2,4) u succ have "rc' = rc1" "calls = calls1"
      by (auto simp: adjust_reference_count_def Let_def)
    with True jp flags show ?thesis by simp
  next
    case False
    show ?thesis
    proof (cases "is_dirty (blocks rc ! ?b) \<and> 0 < slab_journal_lock (blocks rc ! ?b)")
      case True
      with assms(1,2,4) u succ False flags
      have "rc' = rc1"
        and "\<exists>p. point = Some p \<and> is_valid_journal_point point
                \<and> calls = calls1 @ [adjust_slab_journal_block_reference (sequence_number p) (- 1)]"
        by (auto simp: adjust_reference_count_def Let_def split: if_splits option.splits)
      with True False jp flags show ?thesis by auto
    next
      case nd: False
      with assms(1,2,4) u succ False flags
      have "rc' = dirty_block ?b
               (map_block ?b
                  (\<lambda>b. b\<lparr>slab_journal_lock :=
                            (case point of
                               Some p \<Rightarrow> if is_valid_journal_point point then sequence_number p else 0
                             | None \<Rightarrow> 0)\<rparr>)
                  rc1)"
        and "calls = calls1"
        by (auto simp: adjust_reference_count_def Let_def split: if_splits option.splits)
      with nd False jp flags assms(3) show ?thesis by auto
    qed
  qed
qed

theorem journal_interaction_witness:
  "is_slab_open (slab example_provisional)
   \<and> slab_block_number_from_pbn (slab example_provisional) (pbn example_increment) = Inr 0
   \<and> fst (adjust_reference_count example_layout example_provisional example_increment
            (Some example_point)) = VDO_SUCCESS
   \<and> type example_increment \<noteq> DATA_DECREMENT
   \<and> is_valid_journal_point (Some example_point)
   \<and> \<not> is_dirty (blocks example_provisional ! get_reference_block example_layout 0)
   \<and> slab_journal_point (fst (snd (adjust_reference_count example_layout example_provisional
                                     example_increment (Some example_point))))
       = example_point
   \<and> slab_journal_lock
       (blocks (fst (snd (adjust_reference_count example_layout example_provisional
                            example_increment (Some example_point))))
          ! get_reference_block example_layout 0) = 7
   \<and> is_dirty
       (blocks (fst (snd (adjust_reference_count example_layout example_provisional
                            example_increment (Some example_point))))
          ! get_reference_block example_layout 0)"
proof -
  let ?r = "adjust_reference_count example_layout example_provisional example_increment
              (Some example_point)"
  have h1: "is_slab_open (slab example_provisional)" by code_simp
  have h2: "slab_block_number_from_pbn (slab example_provisional) (pbn example_increment) = Inr 0"
    by code_simp
  have h3: "get_reference_block example_layout 0 < length (blocks example_provisional)"
    by code_simp
  have ok: "fst ?r = VDO_SUCCESS" by code_simp
  have h4: "?r = (VDO_SUCCESS, fst (snd ?r), fst (snd (snd ?r)), snd (snd (snd ?r)))"
    using ok by (metis prod.collapse)
  have ty: "type example_increment \<noteq> DATA_DECREMENT" by (simp add: example_increment_def)
  have va: "is_valid_journal_point (Some example_point)" by code_simp
  have cl: "\<not> is_dirty (blocks example_provisional ! get_reference_block example_layout 0)"
    by code_simp
  have sq: "sequence_number example_point = 7" by (simp add: example_point_def)
  from journal_interaction [OF h1 h2 h3 h4] ty va cl sq ok h1 h2
  show ?thesis by simp
qed

subsection \<open>Packing, unpacking and loading\<close>

lemma map_block_compose:
  "map_block b g (map_block b f rc) = map_block b (g \<circ> f) rc"
  by (cases "b < length (blocks rc)") (simp_all add: map_block_def list_update_beyond)

lemma length_memcpy_to [simp]: "length (memcpy_to dst pos src n) = length dst"
  unfolding memcpy_to_def
  by (induction n) simp_all

lemma memcpy_to_nth:
  "pos + n \<le> length dst \<Longrightarrow>
   memcpy_to dst pos src n ! j = (if pos \<le> j \<and> j < pos + n then src ! (j - pos) else dst ! j)"
proof (induction n)
  case 0
  then show ?case by (auto simp: memcpy_to_def)
next
  case (Suc n)
  have "memcpy_to dst pos src (Suc n) = (memcpy_to dst pos src n)[pos + n := src ! n]"
    by (simp add: memcpy_to_def)
  with Suc show ?case
    by (auto simp: nth_list_update)
qed

lemma memcpy_from_nth [simp]: "k < n \<Longrightarrow> memcpy_from src pos n ! k = src ! (pos + k)"
  by (simp add: memcpy_from_def)

lemma memcpy_roundtrip:
  "pos + n \<le> length xs \<Longrightarrow> memcpy_to xs pos (memcpy_from xs pos n) n = xs"
  by (rule nth_equalityI) (auto simp: memcpy_to_nth)

lemma unpack_pack_journal_point [simp]: "unpack_journal_point (pack_journal_point p) = p"
  by (simp add: unpack_journal_point_def pack_journal_point_def)

lemma not_before_self [simp]: "\<not> before_journal_point p p"
  by (simp add: before_journal_point_def)

lemma pack_reference_block_nth:
  "i < SECTORS_PER_BLOCK L \<Longrightarrow>
   pack_reference_block L rc blk ! i =
     \<lparr>commit_point = pack_journal_point (slab_journal_point rc),
      counts = memcpy_from (counters rc)
                 (get_reference_counters_for_block L blk + i * COUNTS_PER_SECTOR L)
                 (COUNTS_PER_SECTOR L)\<rparr>"
  by (simp add: pack_reference_block_def Let_def)

lemma unpack_sector_of_pack:
  assumes "blk < length (blocks r)"
    and "(blk + 1) * COUNTS_PER_BLOCK L \<le> length (counters rc)"
    and "n < SECTORS_PER_BLOCK L"
    and "n < length (commit_points (blocks r ! blk))"
    and "counters r = counters rc"
    and "slab_journal_point r = slab_journal_point rc"
  shows "unpack_sector L (pack_reference_block L rc blk) blk n r =
           map_block blk (\<lambda>b. b\<lparr>commit_points := (commit_points b)[n := slab_journal_point rc]\<rparr>) r"
proof -
  have "n * COUNTS_PER_SECTOR L + COUNTS_PER_SECTOR L \<le> SECTORS_PER_BLOCK L * COUNTS_PER_SECTOR L"
    using assms(3) by (metis Suc_leI mult_Suc mult_le_mono1 add.commute)
  then have bound: "get_reference_counters_for_block L blk + n * COUNTS_PER_SECTOR L
                 + COUNTS_PER_SECTOR L \<le> length (counters rc)"
    using assms(2) by (simp add: get_reference_counters_for_block_def COUNTS_PER_BLOCK_def)
  show ?thesis
    using assms(1,3,4,5,6) bound
    by (simp add: unpack_sector_def pack_reference_block_nth Let_def memcpy_roundtrip)
qed

lemma unpack_sectors_of_pack:
  assumes "blk < length (blocks rc)"
    and "(blk + 1) * COUNTS_PER_BLOCK L \<le> length (counters rc)"
    and "n \<le> SECTORS_PER_BLOCK L"
    and "n \<le> length (commit_points (blocks rc ! blk))"
  shows "fold (unpack_sector L (pack_reference_block L rc blk) blk) [0..<n] rc =
           map_block blk
             (\<lambda>b. b\<lparr>commit_points :=
                       map (\<lambda>j. if j < n then slab_journal_point rc else commit_points b ! j)
                         [0..<length (commit_points b)]\<rparr>)
             rc"
  using assms(3,4)
proof (induction n)
  case 0
  have "map ((!) (commit_points (blocks rc ! blk))) [0..<length (commit_points (blocks rc ! blk))]
          = commit_points (blocks rc ! blk)"
    by (simp add: map_nth)
  then show ?case by (simp add: map_block_def)
next
  case (Suc n)
  let ?f = "\<lambda>b. b\<lparr>commit_points :=
                       map (\<lambda>j. if j < n then slab_journal_point rc else commit_points b ! j)
                         [0..<length (commit_points b)]\<rparr>"
  let ?r = "map_block blk ?f rc"
  have l: "\<And>cps. (map (\<lambda>j. if j < n then slab_journal_point rc else cps ! j) [0..<length cps])
                    [n := slab_journal_point rc]
              = map (\<lambda>j. if j < Suc n then slab_journal_point rc else cps ! j) [0..<length cps]"
    by (rule nth_equalityI) (auto simp: nth_list_update less_Suc_eq)
  from Suc have IH: "fold (unpack_sector L (pack_reference_block L rc blk) blk) [0..<n] rc = ?r"
    by simp
  have "fold (unpack_sector L (pack_reference_block L rc blk) blk) [0..<Suc n] rc
          = unpack_sector L (pack_reference_block L rc blk) blk n ?r"
    by (simp add: IH)
  also have "\<dots> = map_block blk
                     (\<lambda>b. b\<lparr>commit_points := (commit_points b)[n := slab_journal_point rc]\<rparr>) ?r"
    using Suc.prems assms(1,2)
    by (intro unpack_sector_of_pack) simp_all
  also have "\<dots> = map_block blk
             (\<lambda>b. b\<lparr>commit_points :=
                       map (\<lambda>j. if j < Suc n then slab_journal_point rc else commit_points b ! j)
                         [0..<length (commit_points b)]\<rparr>)
             rc"
    by (simp add: map_block_compose comp_def l)
  finally show ?case .
qed


lemma count_loop:
  "fold (count_allocated blk base) [0..<n] rc
   = map_block blk
       (\<lambda>b. b\<lparr>allocated_count :=
                 allocated_count b
                 + of_nat (length (filter (\<lambda>idx. counters rc ! (base + idx) \<noteq> EMPTY_REFERENCE_COUNT)
                                     [0..<n]))\<rparr>)
       rc"
proof (induction n)
  case 0
  show ?case by (simp add: map_block_def)
next
  case (Suc n)
  have "fold (count_allocated blk base) [0..<Suc n] rc
          = count_allocated blk base n (fold (count_allocated blk base) [0..<n] rc)"
    by simp
  also have "\<dots> = count_allocated blk base n
      (map_block blk
       (\<lambda>b. b\<lparr>allocated_count :=
                 allocated_count b
                 + of_nat (length (filter (\<lambda>idx. counters rc ! (base + idx) \<noteq> EMPTY_REFERENCE_COUNT)
                                     [0..<n]))\<rparr>)
       rc)"
    by (simp only: Suc)
  also have "\<dots> = map_block blk
       (\<lambda>b. b\<lparr>allocated_count :=
                 allocated_count b
                 + of_nat (length (filter (\<lambda>idx. counters rc ! (base + idx) \<noteq> EMPTY_REFERENCE_COUNT)
                                     [0..<Suc n]))\<rparr>)
       rc"
    by (simp add: count_allocated_def map_block_compose comp_def add.assoc)
  finally show ?case .
qed

lemma unpack_reference_block_of_pack:
  assumes "blk < length (blocks rc)"
    and "(blk + 1) * COUNTS_PER_BLOCK L \<le> length (counters rc)"
    and "length (commit_points (blocks rc ! blk)) = SECTORS_PER_BLOCK L"
  shows "unpack_reference_block L (pack_reference_block L rc blk) blk rc =
           map_block blk
             (\<lambda>b. b\<lparr>commit_points := replicate (SECTORS_PER_BLOCK L) (slab_journal_point rc),
                     allocated_count :=
                       of_nat (length (filter
                         (\<lambda>idx. counters rc ! (get_reference_counters_for_block L blk + idx)
                                  \<noteq> EMPTY_REFERENCE_COUNT)
                         [0..<COUNTS_PER_BLOCK L]))\<rparr>)
             rc"
proof -
  have r: "map (\<lambda>j. if j < SECTORS_PER_BLOCK L then slab_journal_point rc else cps ! j)
             [0..<SECTORS_PER_BLOCK L] = replicate (SECTORS_PER_BLOCK L) (slab_journal_point rc)" for cps
    by (rule nth_equalityI) simp_all
  show ?thesis
    unfolding unpack_reference_block_def Let_def
    apply (subst unpack_sectors_of_pack [OF assms(1,2)])
      apply simp
     apply (simp add: assms(3))
    apply (subst count_loop)
    using assms(1,3)
    apply (simp add: map_block_compose comp_def r)
    done
qed


lemma map_block_counters_update:
  "map_block b f (rc\<lparr>counters := cs\<rparr>) = (map_block b f rc)\<lparr>counters := cs\<rparr>"
  by (simp add: map_block_def)

lemma clear_loop:
  assumes "base + n \<le> length (counters r0)"
  shows "fold (clear_provisional_reference blk base) [0..<n] r0 =
     (map_block blk
        (\<lambda>b. b\<lparr>allocated_count :=
                  allocated_count b
                  - of_nat (length (filter (\<lambda>j. counters r0 ! (base + j) = PROVISIONAL_REFERENCE_COUNT)
                                      [0..<n]))\<rparr>)
        r0)
       \<lparr>counters :=
          map (\<lambda>j. if base \<le> j \<and> j < base + n \<and> counters r0 ! j = PROVISIONAL_REFERENCE_COUNT
                    then EMPTY_REFERENCE_COUNT else counters r0 ! j)
            [0..<length (counters r0)]\<rparr>"
  using assms
proof (induction n)
  case 0
  have "map (\<lambda>j. if base \<le> j \<and> j < base + 0 \<and> counters r0 ! j = PROVISIONAL_REFERENCE_COUNT
                    then EMPTY_REFERENCE_COUNT else counters r0 ! j)
            [0..<length (counters r0)] = counters r0"
    by (intro nth_equalityI) auto
  then show ?case by (simp add: map_block_def)
next
  case (Suc n)
  let ?cs = "\<lambda>n. map (\<lambda>j. if base \<le> j \<and> j < base + n \<and> counters r0 ! j = PROVISIONAL_REFERENCE_COUNT
                    then EMPTY_REFERENCE_COUNT else counters r0 ! j)
            [0..<length (counters r0)]"
  let ?k = "\<lambda>n. length (filter (\<lambda>j. counters r0 ! (base + j) = PROVISIONAL_REFERENCE_COUNT) [0..<n])"
  let ?R = "\<lambda>n. (map_block blk (\<lambda>b. b\<lparr>allocated_count := allocated_count b - of_nat (?k n)\<rparr>) r0)
              \<lparr>counters := ?cs n\<rparr>"
  from Suc have IH: "fold (clear_provisional_reference blk base) [0..<n] r0 = ?R n" by simp
  from Suc.prems have inr: "base + n < length (counters r0)" by simp
  have c1: "(?cs n)[base + n := EMPTY_REFERENCE_COUNT] = ?cs (Suc n)"
    if "counters r0 ! (base + n) = PROVISIONAL_REFERENCE_COUNT"
  proof (intro nth_equalityI)
    show "length ((?cs n)[base + n := EMPTY_REFERENCE_COUNT]) = length (?cs (Suc n))" by simp
  next
    fix i assume "i < length ((?cs n)[base + n := EMPTY_REFERENCE_COUNT])"
    then show "(?cs n)[base + n := EMPTY_REFERENCE_COUNT] ! i = ?cs (Suc n) ! i"
      using that by (cases "i = base + n") (auto simp: nth_list_update)
  qed
  have c2: "?cs n = ?cs (Suc n)"
    if "counters r0 ! (base + n) \<noteq> PROVISIONAL_REFERENCE_COUNT"
  proof (intro nth_equalityI)
    show "length (?cs n) = length (?cs (Suc n))" by simp
  next
    fix i assume "i < length (?cs n)"
    then show "?cs n ! i = ?cs (Suc n) ! i"
      using that by (cases "i = base + n") auto
  qed
  have rd: "counters (?R n) ! (base + n) = counters r0 ! (base + n)"
    using inr by simp
  have "fold (clear_provisional_reference blk base) [0..<Suc n] r0
          = clear_provisional_reference blk base n (?R n)"
    by (simp add: IH)
  also have "\<dots> = ?R (Suc n)"
  proof (cases "counters r0 ! (base + n) = PROVISIONAL_REFERENCE_COUNT")
    case True
    have "clear_provisional_reference blk base n (?R n)
            = map_block blk (\<lambda>b. b\<lparr>allocated_count := allocated_count b - 1\<rparr>)
                ((?R n)\<lparr>counters := (counters (?R n))[base + n := EMPTY_REFERENCE_COUNT]\<rparr>)"
      unfolding clear_provisional_reference_def rd using True by simp
    also have "\<dots> = ?R (Suc n)"
      using True c1 [OF True]
      by (simp add: map_block_counters_update map_block_compose comp_def diff_diff_eq add.commute)
    finally show ?thesis .
  next
    case False
    have "clear_provisional_reference blk base n (?R n) = ?R n"
      unfolding clear_provisional_reference_def rd using False by simp
    also have "\<dots> = ?R (Suc n)"
      using False c2 [OF False] by simp
    finally show ?thesis .
  qed
  finally show ?case .
qed


lemma unpack_sector_fields:
  "counters (unpack_sector L packed blk i r) =
     memcpy_to (counters r) (get_reference_counters_for_block L blk + i * COUNTS_PER_SECTOR L)
       (counts (packed ! i)) (COUNTS_PER_SECTOR L)"
  "free_blocks (unpack_sector L packed blk i r) = free_blocks r"
  "length (blocks (unpack_sector L packed blk i r)) = length (blocks r)"
  by (simp_all add: unpack_sector_def Let_def)

lemma div_mod_in_sector:
  fixes c :: nat
  assumes "n * c \<le> a" and "a < n * c + c"
  shows "a div c = n" and "a mod c = a - n * c"
proof -
  from assms have c: "0 < c" by (cases c) auto
  from assms obtain r where a: "a = n * c + r" and r: "r < c"
    by (metis add_diff_inverse_nat nat_add_left_cancel_less not_less)
  from a r c show "a div c = n" by simp
  from a r c show "a mod c = a - n * c" by simp
qed

lemma unpack_sectors_general:
  assumes "(blk + 1) * COUNTS_PER_BLOCK L \<le> length (counters rc)"
    and "n \<le> SECTORS_PER_BLOCK L"
  shows "length (counters (fold (unpack_sector L packed blk) [0..<n] rc)) = length (counters rc)
       \<and> (\<forall>j. counters (fold (unpack_sector L packed blk) [0..<n] rc) ! j =
             (if get_reference_counters_for_block L blk \<le> j
                 \<and> j < get_reference_counters_for_block L blk + n * COUNTS_PER_SECTOR L
              then packed_counter L packed (j - get_reference_counters_for_block L blk)
              else counters rc ! j))
       \<and> free_blocks (fold (unpack_sector L packed blk) [0..<n] rc) = free_blocks rc
       \<and> length (blocks (fold (unpack_sector L packed blk) [0..<n] rc)) = length (blocks rc)"
  using assms(2)
proof (induction n)
  case 0
  show ?case by auto
next
  case (Suc n)
  let ?F = "fold (unpack_sector L packed blk) [0..<n] rc"
  let ?base = "get_reference_counters_for_block L blk"
  let ?c = "COUNTS_PER_SECTOR L"
  from Suc have IH:
    "length (counters ?F) = length (counters rc)"
    "\<And>j. counters ?F ! j =
             (if ?base \<le> j \<and> j < ?base + n * ?c then packed_counter L packed (j - ?base)
              else counters rc ! j)"
    "free_blocks ?F = free_blocks rc"
    "length (blocks ?F) = length (blocks rc)"
    by simp_all
  from Suc.prems have n: "n < SECTORS_PER_BLOCK L" by simp
  have "n * ?c + ?c \<le> SECTORS_PER_BLOCK L * ?c"
    using n by (metis Suc_leI mult_Suc mult_le_mono1 add.commute)
  then have bound: "?base + n * ?c + ?c \<le> length (counters ?F)"
    using assms(1) IH(1)
    by (simp add: get_reference_counters_for_block_def COUNTS_PER_BLOCK_def)
  have step: "fold (unpack_sector L packed blk) [0..<Suc n] rc = unpack_sector L packed blk n ?F"
    by simp
  have nth: "counters (unpack_sector L packed blk n ?F) ! j =
             (if ?base \<le> j \<and> j < ?base + Suc n * ?c then packed_counter L packed (j - ?base)
              else counters rc ! j)" for j
  proof (cases "?base + n * ?c \<le> j \<and> j < ?base + n * ?c + ?c")
    case True
    then have "n * ?c \<le> j - ?base" "j - ?base < n * ?c + ?c" by auto
    from div_mod_in_sector [OF this]
    have "packed_counter L packed (j - ?base) = counts (packed ! n) ! (j - ?base - n * ?c)"
      by (simp add: packed_counter_def)
    with True bound show ?thesis
      by (simp add: unpack_sector_fields memcpy_to_nth)
  next
    case False
    with bound show ?thesis
      by (auto simp: unpack_sector_fields memcpy_to_nth IH(2))
  qed
  show ?case
    unfolding step using nth IH(1,3,4)
    by (simp add: unpack_sector_fields)
qed


lemma length_filter_split:
  "length (filter P xs) = length (filter (\<lambda>x. P x \<and> Q x) xs) + length (filter (\<lambda>x. P x \<and> \<not> Q x) xs)"
  by (induction xs) auto

lemma unpack_reference_block_general:
  assumes "(blk + 1) * COUNTS_PER_BLOCK L \<le> length (counters rc)"
  shows "length (counters (unpack_reference_block L packed blk rc)) = length (counters rc)"
    and "\<And>idx. idx < COUNTS_PER_BLOCK L \<Longrightarrow>
           counters (unpack_reference_block L packed blk rc)
             ! (get_reference_counters_for_block L blk + idx) = packed_counter L packed idx"
    and "free_blocks (unpack_reference_block L packed blk rc) = free_blocks rc"
    and "length (blocks (unpack_reference_block L packed blk rc)) = length (blocks rc)"
    and "blk < length (blocks rc) \<Longrightarrow>
         allocated_count (blocks (unpack_reference_block L packed blk rc) ! blk) =
           of_nat (length (filter (\<lambda>idx. packed_counter L packed idx \<noteq> EMPTY_REFERENCE_COUNT)
                             [0..<COUNTS_PER_BLOCK L]))"
proof -
  let ?base = "get_reference_counters_for_block L blk"
  let ?rc1 = "fold (unpack_sector L packed blk) [0..<SECTORS_PER_BLOCK L] rc"
  note g = unpack_sectors_general [OF assms order_refl, of packed]
  have c1: "counters ?rc1 ! (?base + idx) = packed_counter L packed idx"
    if "idx < COUNTS_PER_BLOCK L" for idx
    using g that by (simp add: COUNTS_PER_BLOCK_def)
  have U: "unpack_reference_block L packed blk rc =
             map_block blk
               (\<lambda>b. b\<lparr>allocated_count :=
                         of_nat (length (filter (\<lambda>idx. counters ?rc1 ! (?base + idx)
                                                         \<noteq> EMPTY_REFERENCE_COUNT)
                                           [0..<COUNTS_PER_BLOCK L]))\<rparr>)
               ?rc1"
    unfolding unpack_reference_block_def Let_def
    by (subst count_loop) (simp add: map_block_compose comp_def)
  have K: "filter (\<lambda>idx. counters ?rc1 ! (?base + idx) \<noteq> EMPTY_REFERENCE_COUNT)
             [0..<COUNTS_PER_BLOCK L]
           = filter (\<lambda>idx. packed_counter L packed idx \<noteq> EMPTY_REFERENCE_COUNT)
               [0..<COUNTS_PER_BLOCK L]"
    by (rule filter_cong) (simp_all add: c1)
  show "length (counters (unpack_reference_block L packed blk rc)) = length (counters rc)"
    unfolding U using g by simp
  show "counters (unpack_reference_block L packed blk rc) ! (?base + idx)
          = packed_counter L packed idx" if "idx < COUNTS_PER_BLOCK L" for idx
    unfolding U using c1 [OF that] by simp
  show "free_blocks (unpack_reference_block L packed blk rc) = free_blocks rc"
    unfolding U using g by simp
  show "length (blocks (unpack_reference_block L packed blk rc)) = length (blocks rc)"
    unfolding U using g by simp
  show "allocated_count (blocks (unpack_reference_block L packed blk rc) ! blk) =
           of_nat (length (filter (\<lambda>idx. packed_counter L packed idx \<noteq> EMPTY_REFERENCE_COUNT)
                             [0..<COUNTS_PER_BLOCK L]))"
    if "blk < length (blocks rc)"
    unfolding U K using g that by simp
qed

text \<open>
  C8, as the source has it. The claim is that packing a block and unpacking the buffer
  gives back the counters and the per-sector commit points, with \<open>PROVISIONAL\<close> counters
  turned into \<open>EMPTY\<close>. On the small slab, whose block 0 has commit points (0, 0), a
  \<open>slab_journal_point\<close> of (7, 3) and a provisional counter at index 1, the round trip
  changes the commit points and leaves the provisional counter provisional.
\<close>

theorem pack_unpack_round_trip_counterexample:
  "commit_points
     (blocks (unpack_reference_block example_layout
                (pack_reference_block example_layout example_mixed 0) 0 example_mixed) ! 0)
     \<noteq> commit_points (blocks example_mixed ! 0)
   \<and> counters example_mixed ! 1 = PROVISIONAL_REFERENCE_COUNT
   \<and> counters (unpack_reference_block example_layout
                 (pack_reference_block example_layout example_mixed 0) 0 example_mixed) ! 1
       \<noteq> EMPTY_REFERENCE_COUNT"
  by code_simp

text \<open>
  C8, amended. Packing a reference block with \<^verbatim>\<open>pack_reference_block\<close> and unpacking the
  buffer at once with \<^verbatim>\<open>unpack_reference_block\<close> leaves every counter as it was,
  \<open>PROVISIONAL\<close> counters included; it sets each per-sector commit point of the block to
  the \<open>slab_journal_point\<close> the object had when packing, leaves \<open>slab_journal_point\<close>
  as it was, recomputes the block's \<open>allocated_count\<close> as the number of its counters
  that are not \<open>EMPTY\<close>, and changes nothing else. The \<open>PROVISIONAL\<close> counters of the
  block become \<open>EMPTY\<close> only in the step that follows unpacking in a load,
  \<^verbatim>\<open>clear_provisional_references\<close>.
\<close>

theorem pack_unpack_round_trip:
  assumes "blk < length (blocks rc)"
    and "(blk + 1) * COUNTS_PER_BLOCK L \<le> length (counters rc)"
    and "length (commit_points (blocks rc ! blk)) = SECTORS_PER_BLOCK L"
  shows "unpack_reference_block L (pack_reference_block L rc blk) blk rc =
           map_block blk
             (\<lambda>b. b\<lparr>commit_points := replicate (SECTORS_PER_BLOCK L) (slab_journal_point rc),
                     allocated_count :=
                       of_nat (length (filter
                         (\<lambda>idx. counters rc ! (get_reference_counters_for_block L blk + idx)
                                  \<noteq> EMPTY_REFERENCE_COUNT)
                         [0..<COUNTS_PER_BLOCK L]))\<rparr>)
             rc
       \<and> counters (unpack_reference_block L (pack_reference_block L rc blk) blk rc) = counters rc
       \<and> commit_points
            (blocks (unpack_reference_block L (pack_reference_block L rc blk) blk rc) ! blk)
           = replicate (SECTORS_PER_BLOCK L) (slab_journal_point rc)
       \<and> slab_journal_point (unpack_reference_block L (pack_reference_block L rc blk) blk rc)
           = slab_journal_point rc
       \<and> counters (clear_provisional_references L blk
                      (unpack_reference_block L (pack_reference_block L rc blk) blk rc))
           = map (\<lambda>j. if get_reference_counters_for_block L blk \<le> j
                         \<and> j < get_reference_counters_for_block L blk + COUNTS_PER_BLOCK L
                         \<and> counters rc ! j = PROVISIONAL_REFERENCE_COUNT
                      then EMPTY_REFERENCE_COUNT else counters rc ! j)
               [0..<length (counters rc)]"
proof -
  note u = unpack_reference_block_of_pack [OF assms]
  have len: "get_reference_counters_for_block L blk + COUNTS_PER_BLOCK L
               \<le> length (counters (unpack_reference_block L (pack_reference_block L rc blk) blk rc))"
    using assms(2) by (simp add: u get_reference_counters_for_block_def)
  have "counters (clear_provisional_references L blk
                      (unpack_reference_block L (pack_reference_block L rc blk) blk rc))
           = map (\<lambda>j. if get_reference_counters_for_block L blk \<le> j
                         \<and> j < get_reference_counters_for_block L blk + COUNTS_PER_BLOCK L
                         \<and> counters rc ! j = PROVISIONAL_REFERENCE_COUNT
                      then EMPTY_REFERENCE_COUNT else counters rc ! j)
               [0..<length (counters rc)]"
    unfolding clear_provisional_references_def clear_loop [OF len]
    by (simp add: u)
  then show ?thesis
    using assms(1) by (simp add: u)
qed

theorem pack_unpack_round_trip_witness:
  "0 < length (blocks example_mixed)
   \<and> (0 + 1) * COUNTS_PER_BLOCK example_layout \<le> length (counters example_mixed)
   \<and> length (commit_points (blocks example_mixed ! 0)) = SECTORS_PER_BLOCK example_layout
   \<and> counters (unpack_reference_block example_layout
                 (pack_reference_block example_layout example_mixed 0) 0 example_mixed)
       = counters example_mixed
   \<and> commit_points
        (blocks (unpack_reference_block example_layout
                   (pack_reference_block example_layout example_mixed 0) 0 example_mixed) ! 0)
       = replicate (SECTORS_PER_BLOCK example_layout) (slab_journal_point example_mixed)
   \<and> slab_journal_point (unpack_reference_block example_layout
                 (pack_reference_block example_layout example_mixed 0) 0 example_mixed)
       = slab_journal_point example_mixed"
proof -
  have h1: "0 < length (blocks example_mixed)" by code_simp
  have h2: "(0 + 1) * COUNTS_PER_BLOCK example_layout \<le> length (counters example_mixed)"
    by code_simp
  have h3: "length (commit_points (blocks example_mixed ! 0)) = SECTORS_PER_BLOCK example_layout"
    by code_simp
  from pack_unpack_round_trip [OF h1 h2 h3] h1 h2 h3 show ?thesis by blast
qed

text \<open>
  C9. After the load of a reference block (\<^verbatim>\<open>finish_reference_block_load\<close>: unpack, then
  clear the provisional references), no counter of the block is \<open>PROVISIONAL\<close>: each is
  the counter read from disk, with 255 replaced by 0. The block's \<open>allocated_count\<close> is
  the number of counters read from disk that are neither \<open>EMPTY\<close> nor \<open>PROVISIONAL\<close>,
  and \<open>free_blocks\<close> has gone down by exactly that number. (\<open>allocated_count\<close> is a
  16-bit field, hence the bound on the number of counters in a block.)
\<close>

theorem load_clears_provisional_references:
  assumes "blk < length (blocks rc)"
    and "(blk + 1) * COUNTS_PER_BLOCK L \<le> length (counters rc)"
    and "COUNTS_PER_BLOCK L < 65536"
  shows "(\<forall>idx < COUNTS_PER_BLOCK L.
            counters (finish_reference_block_load L packed blk rc)
              ! (get_reference_counters_for_block L blk + idx)
            = (if packed_counter L packed idx = PROVISIONAL_REFERENCE_COUNT
               then EMPTY_REFERENCE_COUNT else packed_counter L packed idx)
            \<and> counters (finish_reference_block_load L packed blk rc)
                 ! (get_reference_counters_for_block L blk + idx) \<noteq> PROVISIONAL_REFERENCE_COUNT)
       \<and> unat (allocated_count (blocks (finish_reference_block_load L packed blk rc) ! blk))
           = length (filter (\<lambda>idx. packed_counter L packed idx \<noteq> EMPTY_REFERENCE_COUNT
                                    \<and> packed_counter L packed idx \<noteq> PROVISIONAL_REFERENCE_COUNT)
                       [0..<COUNTS_PER_BLOCK L])
       \<and> free_blocks (finish_reference_block_load L packed blk rc)
           = free_blocks rc
             - of_nat (length (filter (\<lambda>idx. packed_counter L packed idx \<noteq> EMPTY_REFERENCE_COUNT
                                    \<and> packed_counter L packed idx \<noteq> PROVISIONAL_REFERENCE_COUNT)
                       [0..<COUNTS_PER_BLOCK L]))"
proof -
  define base where "base = get_reference_counters_for_block L blk"
  define n where "n = COUNTS_PER_BLOCK L"
  define U where "U = unpack_reference_block L packed blk rc"
  define rc2 where "rc2 = U\<lparr>active_count := active_count U - 1\<rparr>"
  define pc where "pc = packed_counter L packed"
  define B where "B = length (filter (\<lambda>j. counters rc2 ! (base + j) = PROVISIONAL_REFERENCE_COUNT) [0..<n])"
  define K where "K = length (filter (\<lambda>idx. pc idx \<noteq> EMPTY_REFERENCE_COUNT) [0..<n])"
  define N where "N = length (filter (\<lambda>idx. pc idx \<noteq> EMPTY_REFERENCE_COUNT
                                    \<and> pc idx \<noteq> PROVISIONAL_REFERENCE_COUNT) [0..<n])"
  define rc3 where "rc3 = clear_provisional_references L blk rc2"
  note u = unpack_reference_block_general [OF assms(2), where packed = packed,
             folded U_def base_def n_def pc_def K_def]
  have f2: "length (counters rc2) = length (counters rc)"
    "\<And>idx. idx < n \<Longrightarrow> counters rc2 ! (base + idx) = pc idx"
    "free_blocks rc2 = free_blocks rc"
    "length (blocks rc2) = length (blocks rc)"
    "allocated_count (blocks rc2 ! blk) = of_nat K"
    using u assms(1) by (simp_all add: rc2_def K_def)
  have len: "base + n \<le> length (counters rc2)"
    using assms(2) f2(1) by (simp add: base_def n_def get_reference_counters_for_block_def)
  have rc3: "rc3 =
     (map_block blk (\<lambda>b. b\<lparr>allocated_count := allocated_count b - of_nat B\<rparr>) rc2)
       \<lparr>counters :=
          map (\<lambda>j. if base \<le> j \<and> j < base + n \<and> counters rc2 ! j = PROVISIONAL_REFERENCE_COUNT
                    then EMPTY_REFERENCE_COUNT else counters rc2 ! j)
            [0..<length (counters rc2)]\<rparr>"
    unfolding rc3_def clear_provisional_references_def B_def base_def [symmetric] n_def [symmetric]
    by (rule clear_loop [OF len])
  have Bf: "filter (\<lambda>j. counters rc2 ! (base + j) = PROVISIONAL_REFERENCE_COUNT) [0..<n]
          = filter (\<lambda>idx. pc idx \<noteq> EMPTY_REFERENCE_COUNT
                           \<and> \<not> pc idx \<noteq> PROVISIONAL_REFERENCE_COUNT) [0..<n]"
  proof (rule filter_cong [OF refl])
    fix idx assume "idx \<in> set [0..<n]"
    then have "idx < n" by simp
    from f2(2) [OF this]
    show "(counters rc2 ! (base + idx) = PROVISIONAL_REFERENCE_COUNT)
            = (pc idx \<noteq> EMPTY_REFERENCE_COUNT \<and> \<not> pc idx \<noteq> PROVISIONAL_REFERENCE_COUNT)"
      by (auto simp: PROVISIONAL_REFERENCE_COUNT_def EMPTY_REFERENCE_COUNT_def)
  qed
  have KNB: "K = N + B"
    unfolding K_def N_def B_def Bf by (rule length_filter_split)
  have "N \<le> length [0..<n]"
    unfolding N_def by (rule length_filter_le)
  then have Nlt: "N < 2 ^ LENGTH(16)"
    using assms(3) by (simp add: n_def)
  have bk: "blk < length (blocks rc2)"
    using assms(1) f2(4) by simp
  have "allocated_count (blocks rc3 ! blk) = of_nat K - of_nat B"
    using bk f2(5) by (simp add: rc3)
  then have alloc: "allocated_count (blocks rc3 ! blk) = (of_nat N :: 16 word)"
    by (simp add: KNB)
  have unatN: "unat (of_nat N :: 16 word) = N"
    by (rule of_nat_inverse [OF refl Nlt])
  have ucastN: "(ucast (of_nat N :: 16 word) :: 32 word) = of_nat N"
  proof -
    have "(ucast (of_nat N :: 16 word) :: 32 word) = of_nat (unat (of_nat N :: 16 word))"
      by simp
    then show ?thesis by (simp only: unatN)
  qed
  have fin: "finish_reference_block_load L packed blk rc =
               rc3\<lparr>free_blocks := free_blocks rc3 - of_nat N\<rparr>"
    unfolding finish_reference_block_load_def Let_def
      U_def [symmetric] rc2_def [symmetric] rc3_def [symmetric] alloc ucastN ..
  have free: "free_blocks rc3 = free_blocks rc"
    using f2(3) by (simp add: rc3)
  have cnt: "counters rc3 ! (base + idx)
            = (if pc idx = PROVISIONAL_REFERENCE_COUNT then EMPTY_REFERENCE_COUNT else pc idx)"
    if "idx < n" for idx
    using that len f2(2) [OF that] by (simp add: rc3)
  have np: "counters rc3 ! (base + idx) \<noteq> PROVISIONAL_REFERENCE_COUNT" if "idx < n" for idx
    using cnt [OF that] by (simp add: PROVISIONAL_REFERENCE_COUNT_def EMPTY_REFERENCE_COUNT_def)
  show ?thesis
    unfolding fin base_def [symmetric] n_def [symmetric] pc_def [symmetric] N_def [symmetric]
    using cnt np alloc unatN free by simp
qed

theorem load_clears_provisional_references_witness:
  "0 < length (blocks example_ref_counts)
   \<and> (0 + 1) * COUNTS_PER_BLOCK example_layout \<le> length (counters example_ref_counts)
   \<and> COUNTS_PER_BLOCK example_layout < 65536
   \<and> packed_counter example_layout (pack_reference_block example_layout example_mixed 0) 0 = 1
   \<and> packed_counter example_layout (pack_reference_block example_layout example_mixed 0) 1
       = PROVISIONAL_REFERENCE_COUNT
   \<and> counters (finish_reference_block_load example_layout
                 (pack_reference_block example_layout example_mixed 0) 0 example_ref_counts)
        ! (get_reference_counters_for_block example_layout 0 + 1) = EMPTY_REFERENCE_COUNT
   \<and> unat (allocated_count
             (blocks (finish_reference_block_load example_layout
                        (pack_reference_block example_layout example_mixed 0) 0
                        example_ref_counts) ! 0)) = 1
   \<and> free_blocks (finish_reference_block_load example_layout
                    (pack_reference_block example_layout example_mixed 0) 0 example_ref_counts)
       = free_blocks example_ref_counts - 1"
proof -
  let ?p = "pack_reference_block example_layout example_mixed 0"
  have h1: "0 < length (blocks example_ref_counts)" by code_simp
  have h2: "(0 + 1) * COUNTS_PER_BLOCK example_layout \<le> length (counters example_ref_counts)"
    by code_simp
  have h3: "COUNTS_PER_BLOCK example_layout < 65536" by code_simp
  have p0: "packed_counter example_layout ?p 0 = 1" by code_simp
  have p1: "packed_counter example_layout ?p 1 = PROVISIONAL_REFERENCE_COUNT" by code_simp
  have n: "length (filter (\<lambda>idx. packed_counter example_layout ?p idx \<noteq> EMPTY_REFERENCE_COUNT
                                \<and> packed_counter example_layout ?p idx
                                    \<noteq> PROVISIONAL_REFERENCE_COUNT)
                     [0..<COUNTS_PER_BLOCK example_layout]) = 1"
    by code_simp
  have i1: "(1 :: nat) < COUNTS_PER_BLOCK example_layout" by code_simp
  let ?N = "length (filter (\<lambda>idx. packed_counter example_layout ?p idx \<noteq> EMPTY_REFERENCE_COUNT
                                \<and> packed_counter example_layout ?p idx
                                    \<noteq> PROVISIONAL_REFERENCE_COUNT)
                     [0..<COUNTS_PER_BLOCK example_layout])"
  let ?r = "finish_reference_block_load example_layout ?p 0 example_ref_counts"
  note t = load_clears_provisional_references [OF h1 h2 h3, of ?p]
  from t i1 have "counters ?r ! (get_reference_counters_for_block example_layout 0 + 1)
                    = (if packed_counter example_layout ?p 1 = PROVISIONAL_REFERENCE_COUNT
                       then EMPTY_REFERENCE_COUNT else packed_counter example_layout ?p 1)"
    by blast
  with p1 have c: "counters ?r ! (get_reference_counters_for_block example_layout 0 + 1)
                     = EMPTY_REFERENCE_COUNT"
    by (simp only: simp_thms if_True)
  from t have "unat (allocated_count (blocks ?r ! 0)) = ?N" by blast
  then have a: "unat (allocated_count (blocks ?r ! 0)) = 1" by (simp only: n)
  from t have "free_blocks ?r = free_blocks example_ref_counts - of_nat ?N" by blast
  then have f: "free_blocks ?r = free_blocks example_ref_counts - 1" by (simp only: n of_nat_1)
  from h1 h2 h3 p0 p1 c a f show ?thesis by blast
qed

subsection \<open>The free-block search and allocation\<close>

lemma and_ff_eq_0_iff: "(w AND 0xFF = 0) = ((ucast (w :: 64 word) :: 8 word) = 0)"
proof -
  have m: "(0xFF :: 64 word) = mask 8" by (simp add: mask_eq_exp_minus_1)
  show ?thesis
    unfolding m
    apply (auto simp: bit_eq_iff bit_simps)
    subgoal for n by (drule spec [of _ n]) simp
    done
qed

lemma le_word_byte:
  "length bs \<le> 8 \<Longrightarrow> k < length bs \<Longrightarrow> (ucast (drop_bit (8 * k) (le_word bs)) :: 8 word) = bs ! k"
proof (induction bs arbitrary: k)
  case Nil
  then show ?case by simp
next
  case (Cons b bs)
  show ?case
  proof (cases k)
    case 0
    show ?thesis
      unfolding 0
      by (rule bit_word_eqI) (auto simp: bit_simps)
  next
    case (Suc j)
    with Cons.prems have j: "j < length bs" "length bs \<le> 7" by simp_all
    then have j7: "j < 7" by simp
    have "(ucast (drop_bit (8 * Suc j) (le_word (b # bs))) :: 8 word)
            = ucast (drop_bit (8 * j) (le_word bs))"
      using j7 by (intro bit_word_eqI) (auto simp: bit_simps dest: bit_imp_le_length)
    also have "\<dots> = bs ! j" using Cons.IH [of j] j by simp
    finally show ?thesis by (simp add: Suc)
  qed
qed


declare find_zero_byte_loop.simps [simp del]
declare find_free_block_loop.simps [simp del]

lemma find_zero_byte_loop_cases:
  assumes "off \<le> 8"
  shows "(\<exists>k. off \<le> k \<and> k < 8 \<and> (ucast (drop_bit (8 * k) W) :: 8 word) = 0
            \<and> find_zero_byte_loop (drop_bit (8 * off) W) off start_index fail_index
                = start_index + of_nat k)
       \<or> ((\<forall>k. off \<le> k \<and> k < 8 \<longrightarrow> (ucast (drop_bit (8 * k) W) :: 8 word) \<noteq> 0)
            \<and> find_zero_byte_loop (drop_bit (8 * off) W) off start_index fail_index = fail_index)"
  using assms
proof (induction "8 - off" arbitrary: off)
  case 0
  then have "off = 8" by simp
  then have "find_zero_byte_loop (drop_bit (8 * off) W) off start_index fail_index = fail_index"
    by (subst find_zero_byte_loop.simps) (simp add: BYTES_PER_WORD_def)
  with \<open>off = 8\<close> show ?case by simp
next
  case (Suc d)
  then have lt: "off < 8" by simp
  have d: "drop_bit 8 (drop_bit (8 * off) W) = drop_bit (8 * (off + 1)) W"
    by (simp add: drop_bit_drop_bit add.commute)
  show ?case
  proof (cases "(ucast (drop_bit (8 * off) W) :: 8 word) = 0")
    case True
    then have "find_zero_byte_loop (drop_bit (8 * off) W) off start_index fail_index
                 = start_index + of_nat off"
      using lt by (subst find_zero_byte_loop.simps) (simp add: BYTES_PER_WORD_def and_ff_eq_0_iff)
    with True lt show ?thesis by blast
  next
    case False
    then have step: "find_zero_byte_loop (drop_bit (8 * off) W) off start_index fail_index
                 = find_zero_byte_loop (drop_bit (8 * (off + 1)) W) (off + 1) start_index fail_index"
      using lt
      by (subst find_zero_byte_loop.simps) (simp add: BYTES_PER_WORD_def and_ff_eq_0_iff d)
    from Suc.hyps(2) lt have "d = 8 - (off + 1)" "off + 1 \<le> 8" by simp_all
    from Suc.hyps(1) [OF this]
    show ?thesis
    proof (elim disjE exE conjE)
      fix k
      assume "off + 1 \<le> k" "k < 8" "(ucast (drop_bit (8 * k) W) :: 8 word) = 0"
        "find_zero_byte_loop (drop_bit (8 * (off + 1)) W) (off + 1) start_index fail_index
           = start_index + of_nat k"
      then show ?thesis unfolding step by (intro disjI1 exI [of _ k]) simp
    next
      assume a: "\<forall>k. off + 1 \<le> k \<and> k < 8 \<longrightarrow> (ucast (drop_bit (8 * k) W) :: 8 word) \<noteq> 0"
        and r: "find_zero_byte_loop (drop_bit (8 * (off + 1)) W) (off + 1) start_index fail_index
           = fail_index"
      have "\<forall>k. off \<le> k \<and> k < 8 \<longrightarrow> (ucast (drop_bit (8 * k) W) :: 8 word) \<noteq> 0"
      proof (intro allI impI)
        fix k assume "off \<le> k \<and> k < 8"
        then show "(ucast (drop_bit (8 * k) W) :: 8 word) \<noteq> 0"
          using a False by (cases "k = off") auto
      qed
      with r show ?thesis unfolding step by blast
    qed
  qed
qed

lemma find_zero_byte_in_word_cases:
  "(\<exists>k<8. cs ! (word_ptr + k) = 0
          \<and> find_zero_byte_in_word cs word_ptr start_index fail_index = start_index + of_nat k)
   \<or> ((\<forall>k<8. cs ! (word_ptr + k) \<noteq> 0)
        \<and> find_zero_byte_in_word cs word_ptr start_index fail_index = fail_index)"
proof -
  let ?bs = "map (\<lambda>k. cs ! (word_ptr + k)) [0..<8]"
  have b: "(ucast (drop_bit (8 * k) (getUInt64LE cs word_ptr)) :: 8 word) = cs ! (word_ptr + k)"
    if "k < 8" for k
    using le_word_byte [of ?bs k] that by (simp add: getUInt64LE_def)
  from find_zero_byte_loop_cases [of 0 "getUInt64LE cs word_ptr" start_index fail_index]
  show ?thesis
    unfolding find_zero_byte_in_word_def
    by (auto simp: b)
qed


lemma unat_plus_of_nat:
  "unat (a :: 32 word) + k < 2 ^ 32 \<Longrightarrow> unat (a + of_nat k) = unat a + k"
proof -
  assume a: "unat a + k < 2 ^ 32"
  then have k: "unat (of_nat k :: 32 word) = k"
    by (intro of_nat_inverse [OF refl]) simp
  have "unat (a + of_nat k) = (unat a + unat (of_nat k :: 32 word)) mod 2 ^ 32"
    by (simp add: unat_word_ariths)
  with a k show ?thesis by simp
qed

lemma find_free_block_loop_sound:
  assumes "find_free_block_loop cs next_index next_counter end_idx end_counter = Some z"
    and "unat next_index = next_counter"
    and "end_counter = unat end_idx"
    and "unat end_idx + 8 \<le> 2 ^ 32"
  shows "next_counter \<le> unat z \<and> z < end_idx \<and> cs ! unat z = 0"
  using assms
proof (induction cs next_index next_counter end_idx end_counter
       rule: find_free_block_loop.induct)
  case (1 cs next_index next_counter end_idx end_counter)
  from "1.prems"(1) have lt: "next_counter < end_counter"
    by (subst (asm) find_free_block_loop.simps) (simp split: if_splits)
  let ?z0 = "find_zero_byte_in_word cs next_counter next_index end_idx"
  show ?case
  proof (cases "?z0 < end_idx")
    case True
    with "1.prems"(1) lt have z: "z = ?z0"
      by (subst (asm) find_free_block_loop.simps) (simp add: Let_def)
    from True have "?z0 \<noteq> end_idx" by auto
    with find_zero_byte_in_word_cases [of cs next_counter next_index end_idx]
    obtain k where k: "k < 8" "cs ! (next_counter + k) = 0" "?z0 = next_index + of_nat k"
      by auto
    have "unat next_index + k < 2 ^ 32"
      using lt k(1) "1.prems"(2,3,4) by simp
    from unat_plus_of_nat [OF this] have "unat ?z0 = next_counter + k"
      using k(3) "1.prems"(2) by simp
    with k(2) True z show ?thesis by simp
  next
    case False
    with "1.prems"(1) lt
    have rec: "find_free_block_loop cs (next_index + of_nat BYTES_PER_WORD)
                 (next_counter + BYTES_PER_WORD) end_idx end_counter = Some z"
      by (subst (asm) find_free_block_loop.simps) (simp add: Let_def)
    have "unat next_index + 8 < 2 ^ 32"
      using lt "1.prems"(2,3,4) by simp
    from unat_plus_of_nat [OF this]
    have u: "unat (next_index + of_nat BYTES_PER_WORD) = next_counter + BYTES_PER_WORD"
      using "1.prems"(2) by (simp add: BYTES_PER_WORD_def)
    from "1.IH" [OF lt refl False rec u "1.prems"(3,4)]
    show ?thesis by simp
  qed
qed

lemma find_free_block_sound:
  assumes "find_free_block rc start_index end_idx = Some z"
    and "start_index \<le> end_idx"
    and "unat end_idx + 8 \<le> 2 ^ 32"
  shows "start_index \<le> z \<and> z < end_idx \<and> counters rc ! unat z = 0"
proof -
  let ?z0 = "find_zero_byte_in_word (counters rc) (unat start_index) start_index end_idx"
  have se: "unat start_index \<le> unat end_idx"
    using assms(2) by (simp add: word_le_nat_alt)
  show ?thesis
  proof (cases "?z0 < end_idx")
    case True
    with assms(1) have z: "z = ?z0"
      by (simp add: find_free_block_def Let_def)
    from True have "?z0 \<noteq> end_idx" by auto
    with find_zero_byte_in_word_cases [of "counters rc" "unat start_index" start_index end_idx]
    obtain k where k: "k < 8" "counters rc ! (unat start_index + k) = 0"
      "?z0 = start_index + of_nat k"
      by auto
    have "unat start_index + k < 2 ^ 32"
      using se k(1) assms(3) by simp
    from unat_plus_of_nat [OF this] have "unat ?z0 = unat start_index + k"
      using k(3) by simp
    with k(2) True z show ?thesis by (simp add: word_le_nat_alt)
  next
    case False
    with assms(1)
    have rec: "find_free_block_loop (counters rc) (start_index + of_nat BYTES_PER_WORD)
                 (unat start_index + BYTES_PER_WORD) end_idx (unat end_idx) = Some z"
      by (simp add: find_free_block_def Let_def)
    from rec have lt: "unat start_index + BYTES_PER_WORD < unat end_idx"
      by (subst (asm) find_free_block_loop.simps) (simp split: if_splits)
    then have "unat start_index + 8 < 2 ^ 32"
      using assms(3) by (simp add: BYTES_PER_WORD_def)
    from unat_plus_of_nat [OF this]
    have u: "unat (start_index + of_nat BYTES_PER_WORD) = unat start_index + BYTES_PER_WORD"
      by (simp add: BYTES_PER_WORD_def)
    from find_free_block_loop_sound [OF rec u refl assms(3)]
    show ?thesis by (simp add: word_le_nat_alt)
  qed
qed


lemma saved_size_bounds:
  assumes "0 < COUNTS_PER_BLOCK L" and "0 < n"
  shows "(get_saved_reference_count_size L n - 1) * COUNTS_PER_BLOCK L < n"
    and "n \<le> get_saved_reference_count_size L n * COUNTS_PER_BLOCK L"
    and "0 < get_saved_reference_count_size L n"
proof -
  let ?c = "COUNTS_PER_BLOCK L"
  note dm = div_mult_mod_eq [of n ?c]
  have ml: "n mod ?c < ?c" using assms(1) by simp
  show "(get_saved_reference_count_size L n - 1) * ?c < n"
  proof (cases "n mod ?c > 0")
    case True
    with dm have "n div ?c * ?c < n" by linarith
    with True show ?thesis by (simp add: get_saved_reference_count_size_def)
  next
    case False
    then have z: "n mod ?c = 0" by simp
    with dm have e: "n div ?c * ?c = n" by simp
    with assms have "0 < n div ?c" by (cases "n div ?c") auto
    then have "(n div ?c - 1) * ?c + ?c = n div ?c * ?c"
      by (cases "n div ?c") simp_all
    with e assms(1) have "(n div ?c - 1) * ?c < n" by linarith
    with z show ?thesis by (simp add: get_saved_reference_count_size_def)
  qed
  show "n \<le> get_saved_reference_count_size L n * ?c"
  proof (cases "n mod ?c > 0")
    case True
    have "n \<le> n div ?c * ?c + ?c" using dm ml by linarith
    with True show ?thesis by (simp add: get_saved_reference_count_size_def)
  next
    case False
    then have "n mod ?c = 0" by simp
    with dm have "n div ?c * ?c = n" by simp
    with False show ?thesis by (simp add: get_saved_reference_count_size_def)
  qed
  then show "0 < get_saved_reference_count_size L n"
    using assms(2) by (cases "get_saved_reference_count_size L n") auto
qed


lemma well_formedD:
  assumes "well_formed L rc"
  shows "0 < COUNTS_PER_BLOCK L"
    and "0 < unat (block_count rc)"
    and "unat (block_count rc) + 8 \<le> 2 ^ 32"
    and "length (blocks rc) = get_saved_reference_count_size L (unat (block_count rc))"
    and "unat (reference_block_count rc) = length (blocks rc)"
    and "length (counters rc) = length (blocks rc) * COUNTS_PER_BLOCK L + 2 * BYTES_PER_WORD"
    and "first_block (search_cursor rc) = 0"
    and "last_block (search_cursor rc) = length (blocks rc) - 1"
    and "block (search_cursor rc) \<le> last_block (search_cursor rc)"
    and "index (search_cursor rc) \<le> end_index (search_cursor rc)"
    and "unat (end_index (search_cursor rc))
           = min ((block (search_cursor rc) + 1) * COUNTS_PER_BLOCK L) (unat (block_count rc))"
  using assms unfolding well_formed_def by blast+

lemma well_formedI:
  assumes "0 < COUNTS_PER_BLOCK L"
    and "0 < unat (block_count rc)"
    and "unat (block_count rc) + 8 \<le> 2 ^ 32"
    and "length (blocks rc) = get_saved_reference_count_size L (unat (block_count rc))"
    and "unat (reference_block_count rc) = length (blocks rc)"
    and "length (counters rc) = length (blocks rc) * COUNTS_PER_BLOCK L + 2 * BYTES_PER_WORD"
    and "first_block (search_cursor rc) = 0"
    and "last_block (search_cursor rc) = length (blocks rc) - 1"
    and "block (search_cursor rc) \<le> last_block (search_cursor rc)"
    and "index (search_cursor rc) \<le> end_index (search_cursor rc)"
    and "unat (end_index (search_cursor rc))
           = min ((block (search_cursor rc) + 1) * COUNTS_PER_BLOCK L) (unat (block_count rc))"
  shows "well_formed L rc"
  using assms unfolding well_formed_def by blast

lemma well_formed_cong:
  assumes "well_formed L rc"
    and "block_count rc' = block_count rc"
    and "length (blocks rc') = length (blocks rc)"
    and "reference_block_count rc' = reference_block_count rc"
    and "length (counters rc') = length (counters rc)"
    and "search_cursor rc' = search_cursor rc"
  shows "well_formed L rc'"
  using well_formedD [OF assms(1)]
  by (intro well_formedI) (simp_all only: assms(2-6))

lemma well_formed_block_bound:
  assumes "well_formed L rc" and "x \<le> length (blocks rc) - 1"
  shows "x * COUNTS_PER_BLOCK L < unat (block_count rc)"
proof -
  note w = well_formedD [OF assms(1)]
  from assms(2) have A: "x * COUNTS_PER_BLOCK L \<le> (length (blocks rc) - 1) * COUNTS_PER_BLOCK L"
    by (rule mult_le_mono1)
  have B: "(length (blocks rc) - 1) * COUNTS_PER_BLOCK L < unat (block_count rc)"
    unfolding w(4) by (rule saved_size_bounds(1) [OF w(1,2)])
  from A B show ?thesis by (rule le_less_trans)
qed

lemma well_formed_covers:
  assumes "well_formed L rc"
  shows "unat (block_count rc) \<le> length (blocks rc) * COUNTS_PER_BLOCK L"
    and "0 < length (blocks rc)"
  using saved_size_bounds(2,3) [OF well_formedD(1,2) [OF assms]] well_formedD(4) [OF assms]
  by simp_all

lemma reset_search_cursor_well_formed:
  assumes "well_formed L rc"
  shows "well_formed L (reset_search_cursor L rc)"
proof -
  note w = well_formedD [OF assms]
  have "min (COUNTS_PER_BLOCK L) (unat (block_count rc)) < 2 ^ 32"
    using w(3) by simp
  then have u: "unat (of_nat (min (COUNTS_PER_BLOCK L) (unat (block_count rc))) :: 32 word)
               = min (COUNTS_PER_BLOCK L) (unat (block_count rc))"
    by (intro of_nat_inverse [OF refl]) simp
  show ?thesis
    using w u by (intro well_formedI) (simp_all add: reset_search_cursor_def)
qed

lemma advance_search_cursor_last:
  assumes "block (search_cursor rc) = last_block (search_cursor rc)"
  shows "advance_search_cursor L rc = (False, reset_search_cursor L rc)"
  using assms by (simp add: advance_search_cursor_def Let_def)

lemma advance_search_cursor_next:
  assumes "well_formed L rc"
    and "block (search_cursor rc) \<noteq> last_block (search_cursor rc)"
  shows "\<exists>c. advance_search_cursor L rc = (True, rc\<lparr>search_cursor := c\<rparr>)
             \<and> well_formed L (rc\<lparr>search_cursor := c\<rparr>)
             \<and> block c = block (search_cursor rc) + 1
             \<and> last_block c = last_block (search_cursor rc)
             \<and> index c = end_index (search_cursor rc)"
proof -
  let ?c = "search_cursor rc"
  let ?n = "COUNTS_PER_BLOCK L"
  note w = well_formedD [OF assms(1)]
  from w(8,9) assms(2) have b: "block ?c + 1 \<le> length (blocks rc) - 1" by simp
  from well_formed_block_bound [OF assms(1) b]
  have lt: "(block ?c + 1) * ?n < unat (block_count rc)" .
  with w(11) have e: "unat (end_index ?c) = (block ?c + 1) * ?n" by simp
  show ?thesis
  proof (cases "block ?c + 1 = last_block ?c")
    case True
    have cov: "unat (block_count rc) \<le> (block ?c + 1 + 1) * ?n"
      using well_formed_covers [OF assms(1)] True w(8) by simp
    have le: "end_index ?c \<le> block_count rc"
      using e lt by (simp add: word_le_nat_alt)
    let ?c2 = "?c\<lparr>block := block ?c + 1, index := end_index ?c, end_index := block_count rc\<rparr>"
    have "advance_search_cursor L rc = (True, rc\<lparr>search_cursor := ?c2\<rparr>)"
      using assms(2) True by (simp add: advance_search_cursor_def Let_def)
    moreover have "well_formed L (rc\<lparr>search_cursor := ?c2\<rparr>)"
      using w True le cov by (intro well_formedI) simp_all
    ultimately show ?thesis by (intro exI [of _ ?c2]) simp
  next
    case False
    with b w(8) have b2: "block ?c + 2 \<le> length (blocks rc) - 1" by simp
    from well_formed_block_bound [OF assms(1) b2]
    have lt2: "(block ?c + 2) * ?n < unat (block_count rc)" .
    have "unat (end_index ?c) + ?n < 2 ^ 32"
      using e lt2 w(3) by (simp add: algebra_simps)
    from unat_plus_of_nat [OF this]
    have e2: "unat (end_index ?c + of_nat ?n) = (block ?c + 2) * ?n"
      using e by (simp add: algebra_simps)
    have le: "end_index ?c \<le> end_index ?c + of_nat ?n"
      using e e2 by (simp add: word_le_nat_alt)
    let ?c2 = "?c\<lparr>block := block ?c + 1, index := end_index ?c,
                  end_index := end_index ?c + of_nat ?n\<rparr>"
    have "advance_search_cursor L rc = (True, rc\<lparr>search_cursor := ?c2\<rparr>)"
      using assms(2) False by (simp add: advance_search_cursor_def Let_def)
    moreover have "well_formed L (rc\<lparr>search_cursor := ?c2\<rparr>)"
      using w b le e2 lt2 by (intro well_formedI) (simp_all add: numeral_2_eq_2)
    ultimately show ?thesis by (intro exI [of _ ?c2]) simp
  qed
qed


lemma search_current_sound:
  assumes "well_formed L rc" and "search_current_reference_block L rc = Some z"
  shows "index (search_cursor rc) \<le> z \<and> z < end_index (search_cursor rc)
         \<and> counters rc ! unat z = 0"
proof -
  note w = well_formedD [OF assms(1)]
  from assms(2)
  have f: "find_free_block rc (index (search_cursor rc)) (end_index (search_cursor rc)) = Some z"
    by (simp add: search_current_reference_block_def split: if_splits)
  have "unat (end_index (search_cursor rc)) + 8 \<le> 2 ^ 32"
    using w(3,11) by simp
  from find_free_block_sound [OF f w(10) this] show ?thesis .
qed

lemma search_reference_blocks_loop_returns:
  assumes "well_formed L rc"
  shows "\<exists>r c. search_reference_blocks_loop L rc = Some (r, rc\<lparr>search_cursor := c\<rparr>)
           \<and> well_formed L (rc\<lparr>search_cursor := c\<rparr>)
           \<and> (\<forall>z. r = Some z \<longrightarrow>
                  end_index (search_cursor rc) \<le> z \<and> index c \<le> z \<and> z < end_index c
                  \<and> counters rc ! unat z = 0)"
  using assms
proof (induction "last_block (search_cursor rc) - block (search_cursor rc)" arbitrary: rc)
  case 0
  with well_formedD(9) [OF "0.prems"]
  have eq: "block (search_cursor rc) = last_block (search_cursor rc)" by simp
  have r: "reset_search_cursor L rc = rc\<lparr>search_cursor := search_cursor (reset_search_cursor L rc)\<rparr>"
    by (simp add: reset_search_cursor_def)
  have "search_reference_blocks_loop L rc = Some (None, reset_search_cursor L rc)"
    by (subst search_reference_blocks_loop.simps) (simp add: advance_search_cursor_last [OF eq])
  with reset_search_cursor_well_formed [OF "0.prems"] r show ?case
    by (intro exI [of _ None] exI [of _ "search_cursor (reset_search_cursor L rc)"]) simp
next
  case (Suc d)
  then have ne: "block (search_cursor rc) \<noteq> last_block (search_cursor rc)" by simp
  from advance_search_cursor_next [OF Suc.prems ne]
  obtain c1 where a: "advance_search_cursor L rc = (True, rc\<lparr>search_cursor := c1\<rparr>)"
    and w1: "well_formed L (rc\<lparr>search_cursor := c1\<rparr>)"
    and b1: "block c1 = block (search_cursor rc) + 1"
    and l1: "last_block c1 = last_block (search_cursor rc)"
    and i1: "index c1 = end_index (search_cursor rc)"
    by blast
  let ?rc1 = "rc\<lparr>search_cursor := c1\<rparr>"
  show ?case
  proof (cases "search_current_reference_block L ?rc1")
    case (Some z)
    from search_current_sound [OF w1 Some] i1
    have "end_index (search_cursor rc) \<le> z \<and> index c1 \<le> z \<and> z < end_index c1
          \<and> counters rc ! unat z = 0"
      by simp
    moreover have "search_reference_blocks_loop L rc = Some (Some z, ?rc1)"
      by (subst search_reference_blocks_loop.simps) (simp add: a Some)
    ultimately show ?thesis using w1
      by (intro exI [of _ "Some z"] exI [of _ c1]) simp
  next
    case None
    have step: "search_reference_blocks_loop L rc = search_reference_blocks_loop L ?rc1"
      by (subst search_reference_blocks_loop.simps) (simp add: a None)
    from Suc.hyps(2) b1 l1
    have "d = last_block (search_cursor ?rc1) - block (search_cursor ?rc1)" by simp
    from Suc.hyps(1) [OF this w1]
    obtain r c where rc: "search_reference_blocks_loop L ?rc1 = Some (r, ?rc1\<lparr>search_cursor := c\<rparr>)"
      and w2: "well_formed L (?rc1\<lparr>search_cursor := c\<rparr>)"
      and z2: "\<forall>z. r = Some z \<longrightarrow>
                  end_index (search_cursor ?rc1) \<le> z \<and> index c \<le> z \<and> z < end_index c
                  \<and> counters ?rc1 ! unat z = 0"
      by blast
    have le: "end_index (search_cursor rc) \<le> end_index c1"
      using well_formedD(10) [OF w1] i1 by simp
    have "\<forall>z. r = Some z \<longrightarrow>
                  end_index (search_cursor rc) \<le> z \<and> index c \<le> z \<and> z < end_index c
                  \<and> counters rc ! unat z = 0"
      using z2 le by auto
    with rc w2 show ?thesis
      unfolding step by (intro exI [of _ r] exI [of _ c]) simp
  qed
qed

lemma search_reference_blocks_returns:
  assumes "well_formed L rc"
  shows "\<exists>r c. search_reference_blocks L rc = Some (r, rc\<lparr>search_cursor := c\<rparr>)
           \<and> well_formed L (rc\<lparr>search_cursor := c\<rparr>)
           \<and> (\<forall>z. r = Some z \<longrightarrow>
                  index (search_cursor rc) \<le> z \<and> index c \<le> z \<and> z < end_index c
                  \<and> counters rc ! unat z = 0)"
proof (cases "search_current_reference_block L rc")
  case (Some z)
  have "rc\<lparr>search_cursor := search_cursor rc\<rparr> = rc" by simp
  with search_current_sound [OF assms Some] assms Some show ?thesis
    by (intro exI [of _ "Some z"] exI [of _ "search_cursor rc"])
       (simp add: search_reference_blocks_def)
next
  case None
  from search_reference_blocks_loop_returns [OF assms]
  obtain r c where rc: "search_reference_blocks_loop L rc = Some (r, rc\<lparr>search_cursor := c\<rparr>)"
    and w2: "well_formed L (rc\<lparr>search_cursor := c\<rparr>)"
    and z2: "\<forall>z. r = Some z \<longrightarrow>
                  end_index (search_cursor rc) \<le> z \<and> index c \<le> z \<and> z < end_index c
                  \<and> counters rc ! unat z = 0"
    by blast
  have "\<forall>z. r = Some z \<longrightarrow>
                  index (search_cursor rc) \<le> z \<and> index c \<le> z \<and> z < end_index c
                  \<and> counters rc ! unat z = 0"
    using z2 well_formedD(10) [OF assms] by auto
  with rc w2 None show ?thesis
    by (intro exI [of _ r] exI [of _ c]) (simp add: search_reference_blocks_def)
qed


lemma unat_ucast_up: "unat (ucast (w :: 32 word) :: 64 word) = unat w"
proof -
  have "unat w < 2 ^ 32" using unsigned_less [of w, where 'a = nat] by simp
  then have "unat w < 2 ^ 64" by simp
  then show ?thesis by (simp add: unsigned_ucast_eq take_bit_nat_eq_self)
qed

lemma ucast_ucast_down: "(ucast (ucast (w :: 32 word) :: 64 word) :: 32 word) = w"
  by (rule bit_word_eqI) (auto simp: bit_simps dest: bit_imp_le_length)

lemma unat_start_plus:
  "unat (s :: 64 word) + unat (i :: 32 word) < 2 ^ 64 \<Longrightarrow> unat (s + ucast i) = unat s + unat i"
proof -
  assume a: "unat s + unat i < 2 ^ 64"
  have "unat (s + ucast i) = (unat s + unat (ucast i :: 64 word)) mod 2 ^ 64"
    by (simp add: unat_word_ariths)
  with a show ?thesis by (simp add: unat_ucast_up)
qed

lemma slab_block_number_from_pbn_index_to_pbn:
  assumes "i < block_count rc"
    and "data_blocks (slab rc) = ucast (block_count rc)"
    and "unat (start (slab rc)) + unat (block_count rc) \<le> 2 ^ 64"
  shows "slab_block_number_from_pbn (slab rc) (index_to_pbn rc i) = Inr i"
proof -
  from assms(1) have lt: "unat i < unat (block_count rc)" by (simp add: word_less_nat_alt)
  with assms(3) have "unat (start (slab rc)) + unat i < 2 ^ 64" by simp
  from unat_start_plus [OF this]
  have "start (slab rc) \<le> start (slab rc) + ucast i"
    by (simp add: word_le_nat_alt)
  moreover have "(ucast i :: 64 word) < ucast (block_count rc)"
    using lt by (simp add: word_less_nat_alt unat_ucast_up)
  ultimately show ?thesis
    using assms(2)
    by (simp add: slab_block_number_from_pbn_def index_to_pbn_def ucast_ucast_down not_le
          not_less [symmetric])
qed


lemma allocate_unreferenced_block_cases:
  assumes "well_formed L rc" and "is_slab_open (slab rc)"
  shows "(\<exists>c. allocate_unreferenced_block L rc
                 = Some (VDO_NO_SPACE, rc\<lparr>search_cursor := c\<rparr>, None, [])
              \<and> well_formed L (rc\<lparr>search_cursor := c\<rparr>))
       \<or> (\<exists>found c.
             index (search_cursor rc) \<le> found \<and> found < block_count rc
             \<and> counters rc ! unat found = EMPTY_REFERENCE_COUNT
             \<and> well_formed L (rc\<lparr>search_cursor := c\<lparr>index := found + 1\<rparr>\<rparr>)
             \<and> allocate_unreferenced_block L rc
                 = Some (VDO_SUCCESS,
                         rc\<lparr>counters := (counters rc)[unat found := PROVISIONAL_REFERENCE_COUNT],
                            blocks := (blocks rc)
                              [get_reference_block L found :=
                                 (blocks rc ! get_reference_block L found)
                                   \<lparr>allocated_count :=
                                      allocated_count (blocks rc ! get_reference_block L found) + 1\<rparr>],
                            free_blocks := free_blocks rc - 1,
                            search_cursor := c\<lparr>index := found + 1\<rparr>\<rparr>,
                         Some (start (slab rc) + ucast found), []))"
proof -
  from search_reference_blocks_returns [OF assms(1)]
  obtain r c where s: "search_reference_blocks L rc = Some (r, rc\<lparr>search_cursor := c\<rparr>)"
    and w: "well_formed L (rc\<lparr>search_cursor := c\<rparr>)"
    and z: "\<forall>z. r = Some z \<longrightarrow>
                  index (search_cursor rc) \<le> z \<and> index c \<le> z \<and> z < end_index c
                  \<and> counters rc ! unat z = 0"
    by blast
  show ?thesis
  proof (cases r)
    case None
    with s assms(2) have "allocate_unreferenced_block L rc
                 = Some (VDO_NO_SPACE, rc\<lparr>search_cursor := c\<rparr>, None, [])"
      by (simp add: allocate_unreferenced_block_def)
    with w show ?thesis by blast
  next
    case (Some found)
    with z have f: "index (search_cursor rc) \<le> found" "index c \<le> found" "found < end_index c"
      "counters rc ! unat found = 0"
      by simp_all
    note wd = well_formedD [OF w]
    have "unat (end_index c) \<le> unat (block_count rc)" using wd(11) by simp
    with f(3) have lt: "found < block_count rc"
      by (simp add: word_less_nat_alt)
    have "unat found + 1 < 2 ^ 32"
      using lt wd(3) by (simp add: word_less_nat_alt)
    from unat_plus_of_nat [OF this] have "unat (found + 1) = unat found + 1" by simp
    with f(3) have "found + 1 \<le> end_index c"
      by (simp add: word_le_nat_alt word_less_nat_alt)
    with wd have w3: "well_formed L (rc\<lparr>search_cursor := c\<lparr>index := found + 1\<rparr>\<rparr>)"
      by (intro well_formedI) simp_all
    have "allocate_unreferenced_block L rc
                 = Some (VDO_SUCCESS,
                         rc\<lparr>counters := (counters rc)[unat found := PROVISIONAL_REFERENCE_COUNT],
                            blocks := (blocks rc)
                              [get_reference_block L found :=
                                 (blocks rc ! get_reference_block L found)
                                   \<lparr>allocated_count :=
                                      allocated_count (blocks rc ! get_reference_block L found) + 1\<rparr>],
                            free_blocks := free_blocks rc - 1,
                            search_cursor := c\<lparr>index := found + 1\<rparr>\<rparr>,
                         Some (start (slab rc) + ucast found), [])"
      using s Some assms(2)
      by (simp add: allocate_unreferenced_block_def make_provisional_reference_def map_block_def
            index_to_pbn_def Let_def)
    with f(1,4) lt w3 show ?thesis
      by (intro disjI2 exI [of _ found] exI [of _ c]) (simp add: EMPTY_REFERENCE_COUNT_def)
  qed
qed


lemma well_formed_index:
  assumes "well_formed L rc" and "i < block_count rc"
  shows "unat i < length (counters rc)" and "get_reference_block L i < length (blocks rc)"
proof -
  from assms(2) have lt: "unat i < unat (block_count rc)" by (simp add: word_less_nat_alt)
  with well_formed_covers(1) [OF assms(1)]
  have m: "unat i < length (blocks rc) * COUNTS_PER_BLOCK L" by simp
  then show "unat i < length (counters rc)"
    using well_formedD(6) [OF assms(1)] by simp
  from m show "get_reference_block L i < length (blocks rc)"
    unfolding get_reference_block_def
    by (simp add: less_mult_imp_div_less)
qed

lemma example_well_formed: "well_formed example_layout example_ref_counts"
  unfolding well_formed_def
  by (simp add: example_ref_counts_def make_ref_counts_def reset_search_cursor_def
        get_saved_reference_count_size_def COUNTS_PER_BLOCK_def example_layout_def
        BYTES_PER_WORD_def Let_def)

text \<open>
  C5. \<^verbatim>\<open>allocate_unreferenced_block\<close> on a well-formed object: when the slab is not
  open it returns \<open>VDO_INVALID_ADMIN_STATE\<close> and changes nothing; when the slab is open
  and no counter from the search cursor's index to the end of the slab is zero, it
  returns \<open>VDO_NO_SPACE\<close> (only the cursor has moved); and when the slab is open it
  always returns, either with \<open>VDO_NO_SPACE\<close> or with a zero counter at an index
  \<open>found\<close> of the sweep, and then it has written \<open>PROVISIONAL\<close> into that counter,
  added one to the \<open>allocated_count\<close> of the containing block, taken one from
  \<open>free_blocks\<close>, set the cursor's index to \<open>found + 1\<close> and returned the PBN
  \<open>slab.start + found\<close> (the slab's origin PBN plus the index). Nothing else of the
  object has changed: no block's dirty flag or journal lock, not the dirty queue; and
  no collaborator was called.
\<close>

theorem allocate_unreferenced_block_behaviour:
  assumes "well_formed L rc"
  shows "(\<not> is_slab_open (slab rc) \<longrightarrow>
            allocate_unreferenced_block L rc = Some (VDO_INVALID_ADMIN_STATE, rc, None, []))
       \<and> (is_slab_open (slab rc)
            \<and> (\<forall>i. unat (index (search_cursor rc)) \<le> i \<and> i < unat (block_count rc) \<longrightarrow>
                     counters rc ! i \<noteq> EMPTY_REFERENCE_COUNT) \<longrightarrow>
            (\<exists>c. allocate_unreferenced_block L rc
                    = Some (VDO_NO_SPACE, rc\<lparr>search_cursor := c\<rparr>, None, [])))
       \<and> (is_slab_open (slab rc) \<longrightarrow>
            (\<exists>c. allocate_unreferenced_block L rc
                    = Some (VDO_NO_SPACE, rc\<lparr>search_cursor := c\<rparr>, None, []))
            \<or> (\<exists>found c.
                  index (search_cursor rc) \<le> found \<and> found < block_count rc
                  \<and> counters rc ! unat found = EMPTY_REFERENCE_COUNT
                  \<and> allocate_unreferenced_block L rc
                      = Some (VDO_SUCCESS,
                          rc\<lparr>counters := (counters rc)[unat found := PROVISIONAL_REFERENCE_COUNT],
                             blocks := (blocks rc)
                               [get_reference_block L found :=
                                  (blocks rc ! get_reference_block L found)
                                    \<lparr>allocated_count :=
                                       allocated_count (blocks rc ! get_reference_block L found) + 1\<rparr>],
                             free_blocks := free_blocks rc - 1,
                             search_cursor := c\<lparr>index := found + 1\<rparr>\<rparr>,
                          Some (start (slab rc) + ucast found), [])))"
proof (intro conjI impI)
  assume "\<not> is_slab_open (slab rc)"
  then show "allocate_unreferenced_block L rc = Some (VDO_INVALID_ADMIN_STATE, rc, None, [])"
    by (simp add: allocate_unreferenced_block_def)
next
  assume a: "is_slab_open (slab rc)
            \<and> (\<forall>i. unat (index (search_cursor rc)) \<le> i \<and> i < unat (block_count rc) \<longrightarrow>
                     counters rc ! i \<noteq> EMPTY_REFERENCE_COUNT)"
  from a have op: "is_slab_open (slab rc)" by simp
  from allocate_unreferenced_block_cases [OF assms op]
  consider (none) c where "allocate_unreferenced_block L rc
                 = Some (VDO_NO_SPACE, rc\<lparr>search_cursor := c\<rparr>, None, [])"
    | (hit) found where "index (search_cursor rc) \<le> found" "found < block_count rc"
        "counters rc ! unat found = EMPTY_REFERENCE_COUNT"
    by blast
  then show "\<exists>c. allocate_unreferenced_block L rc
                    = Some (VDO_NO_SPACE, rc\<lparr>search_cursor := c\<rparr>, None, [])"
  proof cases
    case none
    then show ?thesis by blast
  next
    case hit
    then have "unat (index (search_cursor rc)) \<le> unat found" "unat found < unat (block_count rc)"
      by (simp_all add: word_le_nat_alt word_less_nat_alt)
    with a hit(3) show ?thesis by blast
  qed
next
  assume "is_slab_open (slab rc)"
  from allocate_unreferenced_block_cases [OF assms this]
  show "(\<exists>c. allocate_unreferenced_block L rc
                    = Some (VDO_NO_SPACE, rc\<lparr>search_cursor := c\<rparr>, None, []))
            \<or> (\<exists>found c.
                  index (search_cursor rc) \<le> found \<and> found < block_count rc
                  \<and> counters rc ! unat found = EMPTY_REFERENCE_COUNT
                  \<and> allocate_unreferenced_block L rc
                      = Some (VDO_SUCCESS,
                          rc\<lparr>counters := (counters rc)[unat found := PROVISIONAL_REFERENCE_COUNT],
                             blocks := (blocks rc)
                               [get_reference_block L found :=
                                  (blocks rc ! get_reference_block L found)
                                    \<lparr>allocated_count :=
                                       allocated_count (blocks rc ! get_reference_block L found) + 1\<rparr>],
                             free_blocks := free_blocks rc - 1,
                             search_cursor := c\<lparr>index := found + 1\<rparr>\<rparr>,
                          Some (start (slab rc) + ucast found), []))"
    by blast
qed


theorem allocate_unreferenced_block_behaviour_witness:
  "well_formed example_layout example_ref_counts
   \<and> is_slab_open (slab example_ref_counts)
   \<and> (\<exists>found c.
         index (search_cursor example_ref_counts) \<le> found
         \<and> found < block_count example_ref_counts
         \<and> counters example_ref_counts ! unat found = EMPTY_REFERENCE_COUNT
         \<and> allocate_unreferenced_block example_layout example_ref_counts
             = Some (VDO_SUCCESS,
                 example_ref_counts
                   \<lparr>counters := (counters example_ref_counts)
                                   [unat found := PROVISIONAL_REFERENCE_COUNT],
                    blocks := (blocks example_ref_counts)
                      [get_reference_block example_layout found :=
                         (blocks example_ref_counts ! get_reference_block example_layout found)
                           \<lparr>allocated_count :=
                              allocated_count
                                (blocks example_ref_counts
                                   ! get_reference_block example_layout found) + 1\<rparr>],
                    free_blocks := free_blocks example_ref_counts - 1,
                    search_cursor := c\<lparr>index := found + 1\<rparr>\<rparr>,
                 Some (start (slab example_ref_counts) + ucast found), []))
   \<and> fst (snd (snd (the (allocate_unreferenced_block example_layout example_ref_counts))))
       = Some 1000"
proof -
  note w = example_well_formed
  have o: "is_slab_open (slab example_ref_counts)" by code_simp
  have r: "fst (the (allocate_unreferenced_block example_layout example_ref_counts)) = VDO_SUCCESS"
    by code_simp
  have p: "fst (snd (snd (the (allocate_unreferenced_block example_layout example_ref_counts))))
             = Some 1000"
    by code_simp
  have no: "\<not> (\<exists>c. allocate_unreferenced_block example_layout example_ref_counts
                    = Some (VDO_NO_SPACE, example_ref_counts\<lparr>search_cursor := c\<rparr>, None, []))"
  proof
    assume "\<exists>c. allocate_unreferenced_block example_layout example_ref_counts
                    = Some (VDO_NO_SPACE, example_ref_counts\<lparr>search_cursor := c\<rparr>, None, [])"
    then obtain c where e: "allocate_unreferenced_block example_layout example_ref_counts
                    = Some (VDO_NO_SPACE, example_ref_counts\<lparr>search_cursor := c\<rparr>, None, [])" ..
    from r [unfolded e] show False by simp
  qed
  let ?H = "\<exists>found c.
         index (search_cursor example_ref_counts) \<le> found
         \<and> found < block_count example_ref_counts
         \<and> counters example_ref_counts ! unat found = EMPTY_REFERENCE_COUNT
         \<and> allocate_unreferenced_block example_layout example_ref_counts
             = Some (VDO_SUCCESS,
                 example_ref_counts
                   \<lparr>counters := (counters example_ref_counts)
                                   [unat found := PROVISIONAL_REFERENCE_COUNT],
                    blocks := (blocks example_ref_counts)
                      [get_reference_block example_layout found :=
                         (blocks example_ref_counts ! get_reference_block example_layout found)
                           \<lparr>allocated_count :=
                              allocated_count
                                (blocks example_ref_counts
                                   ! get_reference_block example_layout found) + 1\<rparr>],
                    free_blocks := free_blocks example_ref_counts - 1,
                    search_cursor := c\<lparr>index := found + 1\<rparr>\<rparr>,
                 Some (start (slab example_ref_counts) + ucast found), [])"
  note t = allocate_unreferenced_block_behaviour [OF w, THEN conjunct2, THEN conjunct2,
             rule_format, OF o]
  have h: ?H
  proof (rule disjE [OF t])
    assume x: "\<exists>c. allocate_unreferenced_block example_layout example_ref_counts
                    = Some (VDO_NO_SPACE, example_ref_counts\<lparr>search_cursor := c\<rparr>, None, [])"
    from no x show ?H by (rule notE)
  next
    assume ?H
    then show ?H .
  qed
  from w o h p show ?thesis by (intro conjI)
qed

text \<open>
  C7. On a well-formed object of an open slab whose data blocks are the \<open>block_count\<close>
  blocks from \<open>slab.start\<close>: when \<^verbatim>\<open>allocate_unreferenced_block\<close> succeeds with PBN
  \<open>p\<close>, an immediate \<open>DATA_DECREMENT\<close> of \<open>p\<close> without a lock through
  \<^verbatim>\<open>adjust_reference_count\<close> succeeds and gives back the object as it was before the
  allocation in everything but the search cursor: the counters, every reference block
  (its \<open>allocated_count\<close>, dirty flag and journal lock), \<open>free_blocks\<close>, the dirty
  queue and \<open>slab_journal_point\<close>. The update is flagged as a provisional decrement and
  no collaborator is called.
\<close>

theorem provisional_reversal:
  assumes "well_formed L rc"
    and "is_slab_open (slab rc)"
    and "data_blocks (slab rc) = ucast (block_count rc)"
    and "unat (start (slab rc)) + unat (block_count rc) \<le> 2 ^ 64"
    and "allocate_unreferenced_block L rc = Some (VDO_SUCCESS, rc1, Some p, calls)"
  shows "\<exists>i. slab_block_number_from_pbn (slab rc1) p = Inr i
           \<and> adjust_reference_count L rc1 \<lparr>type = DATA_DECREMENT, pbn = p, lock = None\<rparr> point
               = (VDO_SUCCESS, rc\<lparr>search_cursor := search_cursor rc1\<rparr>, Some True, [])
           \<and> fst (snd (snd (snd (update_reference_count rc1 (get_reference_block L i) i point
                                     \<lparr>type = DATA_DECREMENT, pbn = p, lock = None\<rparr>
                                     NORMAL_OPERATION))))"
proof -
  from allocate_unreferenced_block_cases [OF assms(1,2)] assms(5)
  obtain found c where f: "found < block_count rc"
      "counters rc ! unat found = EMPTY_REFERENCE_COUNT"
    and rc1: "rc1 = rc\<lparr>counters := (counters rc)[unat found := PROVISIONAL_REFERENCE_COUNT],
                             blocks := (blocks rc)
                               [get_reference_block L found :=
                                  (blocks rc ! get_reference_block L found)
                                    \<lparr>allocated_count :=
                                       allocated_count (blocks rc ! get_reference_block L found) + 1\<rparr>],
                             free_blocks := free_blocks rc - 1,
                             search_cursor := c\<lparr>index := found + 1\<rparr>\<rparr>"
    and p: "p = start (slab rc) + ucast found"
    by auto
  let ?b = "get_reference_block L found"
  let ?op = "\<lparr>type = DATA_DECREMENT, pbn = p, lock = None\<rparr>"
  note ix = well_formed_index [OF assms(1) f(1)]
  have sb: "slab_block_number_from_pbn (slab rc1) p = Inr found"
    using slab_block_number_from_pbn_index_to_pbn [OF f(1) assms(3,4)]
    by (simp add: rc1 p index_to_pbn_def)
  have cs: "(counters rc)[unat found := EMPTY_REFERENCE_COUNT] = counters rc"
    using f(2) by (metis list_update_id)
  have bs: "(blocks rc)[?b := blocks rc ! ?b] = blocks rc"
    by (rule list_update_id)
  have st: "reference_count_to_status (counters rc1 ! unat found) = RS_PROVISIONAL"
    using ix(1)
    by (simp add: rc1 reference_count_to_status_def PROVISIONAL_REFERENCE_COUNT_def
          EMPTY_REFERENCE_COUNT_def)
  have u: "update_reference_count rc1 ?b found point ?op NORMAL_OPERATION
             = (VDO_SUCCESS, rc\<lparr>search_cursor := search_cursor rc1\<rparr>, Some True, True, [])"
    using ix st cs bs
    by (simp add: update_reference_count_def decrement_for_data_def Let_def
          get_reference_operation_pbn_lock_def)
       (simp add: rc1 map_block_def)
  have "adjust_reference_count L rc1 ?op point
               = (VDO_SUCCESS, rc\<lparr>search_cursor := search_cursor rc1\<rparr>, Some True, [])"
    using assms(2) sb u by (simp add: adjust_reference_count_def Let_def rc1)
  with sb u show ?thesis by simp
qed

theorem provisional_reversal_witness:
  "well_formed example_layout example_ref_counts
   \<and> is_slab_open (slab example_ref_counts)
   \<and> data_blocks (slab example_ref_counts) = ucast (block_count example_ref_counts)
   \<and> fst (the (allocate_unreferenced_block example_layout example_ref_counts)) = VDO_SUCCESS
   \<and> adjust_reference_count example_layout
        (fst (snd (the (allocate_unreferenced_block example_layout example_ref_counts))))
        \<lparr>type = DATA_DECREMENT, pbn = 1000, lock = None\<rparr> (Some example_point)
       = (VDO_SUCCESS,
          example_ref_counts
            \<lparr>search_cursor :=
               search_cursor
                 (fst (snd (the (allocate_unreferenced_block example_layout
                                   example_ref_counts))))\<rparr>,
          Some True, [])"
proof -
  let ?a = "the (allocate_unreferenced_block example_layout example_ref_counts)"
  note w = example_well_formed
  have o: "is_slab_open (slab example_ref_counts)" by code_simp
  have d: "data_blocks (slab example_ref_counts) = ucast (block_count example_ref_counts)"
    by code_simp
  have n: "unat (start (slab example_ref_counts)) + unat (block_count example_ref_counts)
             \<le> 2 ^ 64"
    by (simp add: example_fields example_slab_def)
  have r: "fst ?a = VDO_SUCCESS" by code_simp
  have a: "allocate_unreferenced_block example_layout example_ref_counts
             = Some (VDO_SUCCESS, fst (snd ?a), Some 1000, [])"
    by code_simp
  from provisional_reversal [OF w o d n a, of "Some example_point"]
  obtain i :: "32 word" where x:
    "slab_block_number_from_pbn (slab (fst (snd ?a))) 1000 = Inr i
     \<and> adjust_reference_count example_layout (fst (snd ?a))
        \<lparr>type = DATA_DECREMENT, pbn = 1000, lock = None\<rparr> (Some example_point)
       = (VDO_SUCCESS,
          example_ref_counts\<lparr>search_cursor := search_cursor (fst (snd ?a))\<rparr>,
          Some True, [])
     \<and> fst (snd (snd (snd (update_reference_count (fst (snd ?a))
                             (get_reference_block example_layout i) i (Some example_point)
                             \<lparr>type = DATA_DECREMENT, pbn = 1000, lock = None\<rparr>
                             NORMAL_OPERATION))))" ..
  from w o d r x [THEN conjunct2, THEN conjunct1] show ?thesis by (intro conjI)
qed

end
